theory Spec2Isabelle
  imports Main "HOL-Library.Log_Nat"
begin

section \<open>Python values, errors and strings\<close>

text \<open>
  The program is \<^verbatim>\<open>src/plot_speed_map.py\<close>. Every exception the code can raise is a
  value of \<open>py_error\<close>; a function that may raise returns \<open>py_error + 'a\<close>, with
  \<open>Inl\<close> for the exception. A \<^verbatim>\<open>try ... except Exception\<close> block is a case
  distinction on that sum.

  A Python \<^verbatim>\<open>str\<close> is modelled as a \<open>string\<close>, each \<open>char\<close> standing for one code
  point below 256. Text with code points from 256 on is outside the model.
\<close>

datatype py_error =
    AttributeError
  | IndexError
  | KeyError
  | TypeError
  | ValueError
  | OSError
  | GPXException
  | RequestException
  | JSONDecodeError
  | OverpassException

text \<open>
  \<^verbatim>\<open>str.isspace\<close> below code point 256: the characters \<^verbatim>\<open>str.split()\<close> splits at.
  They are U+0009 to U+000D, U+001C to U+0020, U+0085 and U+00A0.
\<close>

definition is_space :: "char \<Rightarrow> bool" where
  "is_space c =
     (let n = (of_char c :: nat)
      in (9 \<le> n \<and> n \<le> 13) \<or> (28 \<le> n \<and> n \<le> 32) \<or> n = 133 \<or> n = 160)"

text \<open>
  \<^verbatim>\<open>s.split()\<close> with no argument: the maximal runs of characters that are not
  white space, in order. \<open>split_from cur s\<close> scans \<open>s\<close> with the token begun so far
  in \<open>cur\<close>.
\<close>

fun split_from :: "string \<Rightarrow> string \<Rightarrow> string list" where
  "split_from cur [] = (if cur = [] then [] else [cur])"
| "split_from cur (c # cs) =
     (if is_space c
      then (if cur = [] then split_from [] cs else cur # split_from [] cs)
      else split_from (cur @ [c]) cs)"

definition str_split :: "string \<Rightarrow> string list" where
  "str_split s = split_from [] s"

text \<open>
  \<^verbatim>\<open>int(tok)\<close> for a token without white space, base 10: an optional sign, then
  decimal digits in which single underscores may stand between two digits. Leading
  zeros are accepted. Anything else raises \<^verbatim>\<open>ValueError\<close>. (CPython's optional cap
  on the number of digits of the literal, \<^verbatim>\<open>sys.set_int_max_str_digits\<close>, is an
  interpreter setting and is not part of the model.)
\<close>

definition is_digit :: "char \<Rightarrow> bool" where
  "is_digit c = (let n = (of_char c :: nat) in 48 \<le> n \<and> n \<le> 57)"

definition digit_val :: "char \<Rightarrow> int" where
  "digit_val c = int (of_char c) - 48"

text \<open>
  \<open>int_digits after_digit acc s\<close>: \<open>after_digit\<close> tells whether the character just
  read was a digit (an underscore is legal only then, and the literal must end so).
\<close>

fun int_digits :: "bool \<Rightarrow> int \<Rightarrow> string \<Rightarrow> int option" where
  "int_digits after_digit acc [] = (if after_digit then Some acc else None)"
| "int_digits after_digit acc (c # cs) =
     (if is_digit c then int_digits True (acc * 10 + digit_val c) cs
      else if c = CHR ''_'' \<and> after_digit then int_digits False acc cs
      else None)"

definition py_int :: "string \<Rightarrow> py_error + int" where
  "py_int tok =
     (let (negative, ds) =
            (case tok of
               [] \<Rightarrow> (False, [])
             | c # cs \<Rightarrow>
                 if c = CHR ''-'' then (True, cs)
                 else if c = CHR ''+'' then (False, cs)
                 else (False, tok))
      in case int_digits False 0 ds of
           None \<Rightarrow> Inl ValueError
         | Some n \<Rightarrow> Inr (if negative then - n else n))"

text \<open>\<^verbatim>\<open>xs[0]\<close> on a list: \<^verbatim>\<open>IndexError\<close> when the list is empty.\<close>

definition first_item :: "'a list \<Rightarrow> py_error + 'a" where
  "first_item xs = (case xs of [] \<Rightarrow> Inl IndexError | x # _ \<Rightarrow> Inr x)"

section \<open>The speed code resolver\<close>

text \<open>
  \<^verbatim>\<open>SPEED_CODE_MAPPING\<close> (lines 16 to 21): a dict literal with four distinct keys,
  kept as an association list and read with \<open>map_of\<close>.
\<close>

definition SPEED_CODE_MAPPING :: "(string \<times> int) list" where
  "SPEED_CODE_MAPPING =
     [(''FR:urban'', 50),
      (''FR:rural'', 80),
      (''FR:trunk'', 110),
      (''FR:motorway'', 130)]"

text \<open>
  The body of the \<^verbatim>\<open>try\<close> block of \<^verbatim>\<open>parse_speed\<close> (lines 74 to 76). The raw value
  is \<^verbatim>\<open>None\<close> or a string. \<^verbatim>\<open>None in SPEED_CODE_MAPPING\<close> is false and
  \<^verbatim>\<open>None.split()\<close> raises \<^verbatim>\<open>AttributeError\<close>.
\<close>

definition parse_speed_body :: "string option \<Rightarrow> py_error + int" where
  "parse_speed_body val =
     (case val of
        None \<Rightarrow> Inl AttributeError
      | Some s \<Rightarrow>
          (case map_of SPEED_CODE_MAPPING s of
             Some v \<Rightarrow> Inr v
           | None \<Rightarrow>
               (case first_item (str_split s) of
                  Inl e \<Rightarrow> Inl e
                | Inr tok \<Rightarrow> py_int tok)))"

text \<open>\<^verbatim>\<open>parse_speed\<close> (lines 71 to 78): every exception of the body becomes \<^verbatim>\<open>None\<close>.\<close>

definition parse_speed :: "string option \<Rightarrow> int option" where
  "parse_speed val = (case parse_speed_body val of Inl _ \<Rightarrow> None | Inr v \<Rightarrow> Some v)"


section \<open>The sampler\<close>

text \<open>
  \<^verbatim>\<open>xs[i]\<close> on a list with an integer index: a negative index counts from the end,
  an index out of range raises \<^verbatim>\<open>IndexError\<close>.
\<close>

definition list_item :: "'a list \<Rightarrow> int \<Rightarrow> py_error + 'a" where
  "list_item xs i =
     (if 0 \<le> i \<and> i < int (length xs) then Inr (xs ! nat i)
      else if i < 0 \<and> - int (length xs) \<le> i then Inr (xs ! nat (int (length xs) + i))
      else Inl IndexError)"

text \<open>\<^verbatim>\<open>[xs[i] for i in indices]\<close>: the first failing read raises.\<close>

fun list_items :: "'a list \<Rightarrow> int list \<Rightarrow> py_error + 'a list" where
  "list_items xs [] = Inr []"
| "list_items xs (i # rest) =
     (case list_item xs i of
        Inl e \<Rightarrow> Inl e
      | Inr x \<Rightarrow>
          (case list_items xs rest of
             Inl e \<Rightarrow> Inl e
           | Inr ys \<Rightarrow> Inr (x # ys)))"

text \<open>
  Double precision arithmetic, as \<^verbatim>\<open>numpy\<close> computes with: the result of an operation
  is the exact result rounded to the nearest double, a tie going to the double with
  the even significand. A double other than 0 is \<open>m * 2 powi (e - 52)\<close> with an
  integer significand \<open>2 ^ 52 \<le> m < 2 ^ 53\<close>. Numbers are rationals here; the model
  leaves out what cannot arise from the lengths of lists: overflow, subnormal numbers,
  infinities and the sign of zero.

  \<open>expo x\<close> is the exponent of a positive \<open>x\<close>: the \<open>e\<close> with
  \<open>2 powi e \<le> x < 2 powi (e + 1)\<close>.
\<close>

definition expo :: "rat \<Rightarrow> int" where
  "expo x = (if 1 \<le> x then bitlen \<lfloor>x\<rfloor> - 1 else - bitlen (\<lceil>1 / x\<rceil> - 1))"

text \<open>Rounding to the nearest integer, a tie going to the even one.\<close>

definition round_even :: "rat \<Rightarrow> int" where
  "round_even a =
     (let f = \<lfloor>a\<rfloor>; r = a - of_int f
      in if r < 1 / 2 then f
         else if 1 / 2 < r then f + 1
         else if even f then f else f + 1)"

text \<open>The double nearest to a positive \<open>x\<close>, and the double nearest to any \<open>x\<close>.\<close>

definition double_pos :: "rat \<Rightarrow> rat" where
  "double_pos x = (let u = 2 powi (expo x - 52) in of_int (round_even (x / u)) * u)"

definition double :: "rat \<Rightarrow> rat" where
  "double x = (if x = 0 then 0 else if x < 0 then - double_pos (- x) else double_pos x)"

text \<open>
  \<^verbatim>\<open>numpy.linspace(start, stop, num, dtype=int)\<close> on integer bounds, as the library
  computes it. A negative \<open>num\<close> raises \<^verbatim>\<open>ValueError\<close>. The bounds become doubles;
  with \<open>div = num - 1\<close>, \<open>delta = stop - start\<close> and, when \<open>div > 0\<close>,
  \<open>step = delta / div\<close>, the samples are \<open>k * step + start\<close> for
  \<open>k = 0, ..., num - 1\<close> (\<open>k * delta + start\<close> when \<open>div\<close> is not positive), each
  operation rounded to a double. When \<open>num > 1\<close> the last sample is overwritten with
  \<open>stop\<close>. Every sample is then rounded down to an integer. The counter \<open>k\<close> and
  \<open>div\<close> are integers that are doubles exactly (they are below \<open>2 ^ 53\<close> for any
  list). The library's other path, taken when \<open>step\<close> is 0, gives the same samples,
  all 0, since \<open>delta\<close> is 0 then.
\<close>

definition linspace_int :: "int \<Rightarrow> int \<Rightarrow> int \<Rightarrow> py_error + int list" where
  "linspace_int start stop num =
     (if num < 0 then Inl ValueError
      else
        let dv = num - 1;
            start_f = double (of_int start);
            stop_f = double (of_int stop);
            delta = double (stop_f - start_f);
            step = double (delta / of_int dv);
            y = map (\<lambda>k. double ((if dv > 0 then double (of_nat k * step)
                                     else double (of_nat k * delta)) + start_f))
                  [0..<nat num];
            y1 = (if num > 1 then y[nat num - 1 := stop_f] else y)
        in Inr (map floor y1))"

text \<open>\<^verbatim>\<open>get_sample_points\<close> (lines 43 to 48).\<close>

definition get_sample_points :: "'a list \<Rightarrow> int \<Rightarrow> py_error + 'a list" where
  "get_sample_points points max_points =
     (if int (length points) \<le> max_points then Inr points
      else
        case linspace_int 0 (int (length points) - 1) max_points of
          Inl e \<Rightarrow> Inl e
        | Inr indices \<Rightarrow> list_items points indices)"

text \<open>
  The indices that line 47 computes for a list of \<open>n\<close> points and \<open>m\<close> samples,
  as natural numbers: \<open>linspace_int 0 (n - 1) m\<close> with the steps of its definition
  carried out for \<open>start = 0\<close>, where adding \<open>start\<close> and converting the bounds
  change nothing. Lemma \<open>linspace_int_sample_indices\<close> shows that the two agree.
\<close>

definition sample_indices :: "nat \<Rightarrow> nat \<Rightarrow> nat list" where
  "sample_indices n m =
     (map (\<lambda>k. nat \<lfloor>double (of_nat k * double (of_nat (n - 1) / of_nat (m - 1)))\<rfloor>)
        [0..<m])[m - 1 := n - 1]"

section \<open>The speed lookup\<close>

text \<open>
  A dict with string keys and string values, as the tags of a map element are: an
  association list read with \<open>map_of\<close>.
\<close>

type_synonym tags = "(string \<times> string) list"

text \<open>
  An item of the \<^verbatim>\<open>elements\<close> list of the service's JSON answer. \<open>Element t\<close> is a
  JSON object whose \<^verbatim>\<open>tags\<close> member is absent (\<open>t = None\<close>) or is a dict of strings,
  as the service sends them. \<open>Malformed e\<close> is any other item, one on which the
  comprehension of line 65 raises \<open>e\<close>: \<^verbatim>\<open>AttributeError\<close> when the item is not an
  object and has no \<^verbatim>\<open>get\<close>, \<^verbatim>\<open>TypeError\<close> when its tags are not a dict. The answer
  itself may or may not have an \<^verbatim>\<open>elements\<close> member.
\<close>

datatype element = Element "tags option" | Malformed py_error

record overpass_json =
  elements :: "element list option"

text \<open>
  What \<^verbatim>\<open>requests.post\<close> comes back with: it raises (connection error, timeout),
  or it returns a response with a status code and a body; the body is \<open>None\<close> when
  \<^verbatim>\<open>response.json()\<close> would raise.
\<close>

datatype http_outcome =
    Post_raises py_error
  | Response int "overpass_json option"

text \<open>
  The list comprehension of line 65: the value of the \<^verbatim>\<open>maxspeed\<close> tag of every
  element whose tags (\<^verbatim>\<open>el.get('tags', {})\<close>) have that key, in the order of the
  elements. A malformed item anywhere in the list makes the comprehension raise.
\<close>

fun speeds_of :: "element list \<Rightarrow> py_error + string list" where
  "speeds_of [] = Inr []"
| "speeds_of (Malformed e # els) = Inl e"
| "speeds_of (Element t # els) =
     (case speeds_of els of
        Inl e \<Rightarrow> Inl e
      | Inr speeds \<Rightarrow>
          (case map_of (case t of None \<Rightarrow> [] | Some d \<Rightarrow> d) ''maxspeed'' of
             None \<Rightarrow> Inr speeds
           | Some v \<Rightarrow> Inr (v # speeds)))"

text \<open>
  The body of the \<^verbatim>\<open>try\<close> block of \<^verbatim>\<open>query_max_speed\<close> (lines 58 to 66). The
  result \<open>Inr None\<close> with a status other than 200 is the fall through to the
  \<^verbatim>\<open>return None\<close> of line 69.
\<close>

definition query_max_speed_body :: "http_outcome \<Rightarrow> py_error + string option" where
  "query_max_speed_body outcome =
     (case outcome of
        Post_raises e \<Rightarrow> Inl e
      | Response status_code body \<Rightarrow>
          if status_code = 200 then
            (case body of
               None \<Rightarrow> Inl JSONDecodeError
             | Some data \<Rightarrow>
                 (case elements data of
                    None \<Rightarrow> Inl KeyError
                  | Some els \<Rightarrow>
                      (case speeds_of els of
                         Inl e \<Rightarrow> Inl e
                       | Inr speeds \<Rightarrow>
                           Inr (if speeds \<noteq> [] then Some (hd speeds) else None))))
          else Inr None)"

text \<open>
  \<^verbatim>\<open>query_max_speed\<close> (lines 50 to 69), given the outcome of its one request: an
  exception is printed and the function returns \<^verbatim>\<open>None\<close>.
\<close>

definition query_max_speed :: "http_outcome \<Rightarrow> string option" where
  "query_max_speed outcome =
     (case query_max_speed_body outcome of Inl _ \<Rightarrow> None | Inr r \<Rightarrow> r)"

section \<open>Effects\<close>

text \<open>
  A Python \<^verbatim>\<open>str\<close> that may hold code points from 256 on (the labels and popups of
  the map): a list of parts, plain text or one code point.
\<close>

datatype text_part = Str string | Glyph nat

type_synonym utext = "text_part list"

text \<open>The query of \<^verbatim>\<open>get_fuel_stations\<close> as data: a union of node statements.\<close>

datatype tag_filter = Tag_is string string | Tag_present string

record 'c node_statement =
  filters :: "tag_filter list"
  bbox :: "'c \<times> 'c \<times> 'c \<times> 'c"

type_synonym 'c node_query = "'c node_statement list"

record 'c osm_node =
  node_lat :: 'c
  node_lon :: 'c
  node_tags :: tags

text \<open>The map object that \<^verbatim>\<open>folium\<close> builds, as far as the program sets it.\<close>

record 'c marker =
  location :: "'c \<times> 'c"
  popup :: utext
  icon_color :: string
  icon_name :: "string option"

record 'c polyline =
  locations :: "('c \<times> 'c) list"
  color :: string
  weight :: nat
  line_popup :: utext

record 'c feature_group =
  group_name :: utext
  shown :: bool
  lines :: "'c polyline list"

text \<open>
  What can be added to the map: a marker, a marker cluster, a feature group, the
  layer control (with its \<^verbatim>\<open>collapsed\<close> flag) and the legend element (with the
  threshold written into it).
\<close>

datatype 'c child =
    Marker_child "'c marker"
  | Cluster_child "'c marker list"
  | Group_child "'c feature_group"
  | Layer_control bool
  | Legend_element int

record 'c speed_map =
  map_location :: "'c \<times> 'c"
  zoom_start :: nat
  children :: "'c child list"

text \<open>
  The effects the program has on the world outside, in the order they happen: a
  request of the speed lookup, the query of the fuel stations, the write of the
  output file. Console output and the pause after each lookup are not modelled.
\<close>

datatype 'c event =
    Speed_request 'c 'c
  | Fuel_request "'c node_query"
  | File_saved string "'c speed_map"

text \<open>
  The world the program runs in: what parsing the track file gives (the tracks, their
  segments, their points; or an exception), what the \<open>i\<close>-th speed request at a
  coordinate comes back with, what the fuel station query comes back with, and the
  time stamp of the file name.
\<close>

record 'c world =
  gpx_file :: "string \<Rightarrow> py_error + ('c \<times> 'c) list list list"
  http_post :: "nat \<Rightarrow> 'c \<Rightarrow> 'c \<Rightarrow> http_outcome"
  api_query :: "'c node_query \<Rightarrow> py_error + 'c osm_node list"
  timestamp :: string

section \<open>The loader and the collection loop\<close>

text \<open>\<^verbatim>\<open>load_gpx_points\<close> (lines 33 to 41).\<close>

definition load_gpx_points :: "'c world \<Rightarrow> string \<Rightarrow> py_error + ('c \<times> 'c) list" where
  "load_gpx_points w filepath =
     (case gpx_file w filepath of
        Inl e \<Rightarrow> Inl e
      | Inr tracks \<Rightarrow> Inr (concat (concat tracks)))"

record 'c observation =
  lat :: 'c
  lon :: 'c
  maxspeed :: "string option"

text \<open>
  The loop of \<^verbatim>\<open>collect_speed_data\<close> (lines 84 to 96): \<open>i\<close> is the index of
  \<^verbatim>\<open>enumerate\<close>, \<open>results\<close> the list appended to, \<open>tr\<close> the requests made so far.
\<close>

fun collect_loop ::
  "'c world \<Rightarrow> nat \<Rightarrow> ('c \<times> 'c) list \<Rightarrow> 'c observation list \<Rightarrow> 'c event list
     \<Rightarrow> 'c observation list \<times> 'c event list" where
  "collect_loop w i [] results tr = (results, tr)"
| "collect_loop w i ((la, lo) # rest) results tr =
     (let max_speed = query_max_speed (http_post w i la lo)
      in collect_loop w (Suc i) rest
           (results @ [\<lparr>lat = la, lon = lo, maxspeed = max_speed\<rparr>])
           (tr @ [Speed_request la lo]))"

text \<open>
  \<^verbatim>\<open>collect_speed_data\<close> (lines 80 to 97). The threshold only chooses the colour
  of the printed line.
\<close>

definition collect_speed_data ::
  "'c world \<Rightarrow> ('c \<times> 'c) list \<Rightarrow> int \<Rightarrow> 'c observation list \<times> 'c event list" where
  "collect_speed_data w points limit_speed = collect_loop w 0 points [] []"


section \<open>The fuel station locator\<close>

text \<open>
  \<^verbatim>\<open>min(xs)\<close> and \<^verbatim>\<open>max(xs)\<close> on a list: \<^verbatim>\<open>ValueError\<close> when it is empty.
\<close>

definition py_min :: "'c::linorder list \<Rightarrow> py_error + 'c" where
  "py_min xs = (case xs of [] \<Rightarrow> Inl ValueError | x # rest \<Rightarrow> Inr (fold min rest x))"

definition py_max :: "'c::linorder list \<Rightarrow> py_error + 'c" where
  "py_max xs = (case xs of [] \<Rightarrow> Inl ValueError | x # rest \<Rightarrow> Inr (fold max rest x))"

text \<open>\<^verbatim>\<open>get_bounding_box\<close> (lines 99 to 103): south, west, north, east.\<close>

definition get_bounding_box ::
  "('c::linorder \<times> 'c) list \<Rightarrow> py_error + ('c \<times> 'c \<times> 'c \<times> 'c)" where
  "get_bounding_box points =
     (let lats = map fst points; lons = map snd points
      in case py_min lats of Inl e \<Rightarrow> Inl e | Inr south \<Rightarrow>
         case py_min lons of Inl e \<Rightarrow> Inl e | Inr west \<Rightarrow>
         case py_max lats of Inl e \<Rightarrow> Inl e | Inr north \<Rightarrow>
         case py_max lons of Inl e \<Rightarrow> Inl e | Inr east \<Rightarrow>
           Inr (south, west, north, east))"

text \<open>
  The query text of lines 108 to 115: the union of the nodes tagged
  \<^verbatim>\<open>amenity=fuel\<close> that carry the key \<^verbatim>\<open>fuel:octane_98\<close> and of those that carry
  the key \<^verbatim>\<open>fuel:octane_95\<close>, each within the bounding box.
\<close>

definition fuel_query :: "'c \<times> 'c \<times> 'c \<times> 'c \<Rightarrow> 'c node_query" where
  "fuel_query box =
     [\<lparr>filters = [Tag_is ''amenity'' ''fuel'', Tag_present ''fuel:octane_98''], bbox = box\<rparr>,
      \<lparr>filters = [Tag_is ''amenity'' ''fuel'', Tag_present ''fuel:octane_95''], bbox = box\<rparr>]"

record 'c station =
  st_lat :: 'c
  st_lon :: 'c
  sp95 :: bool
  sp98 :: bool
  st_name :: string

text \<open>The body of the loop of lines 119 to 128: the station of one node.\<close>

definition station_of :: "'c osm_node \<Rightarrow> 'c station" where
  "station_of node =
     (let has_sp95 = (map_of (node_tags node) ''fuel:octane_95'' = Some ''yes'');
          has_sp98 = (map_of (node_tags node) ''fuel:octane_98'' = Some ''yes'')
      in \<lparr>st_lat = node_lat node,
          st_lon = node_lon node,
          sp95 = has_sp95,
          sp98 = has_sp98,
          st_name = (case map_of (node_tags node) ''name'' of
                       None \<Rightarrow> ''Station-service''
                     | Some n \<Rightarrow> n)\<rparr>)"

fun stations_loop :: "'c osm_node list \<Rightarrow> 'c station list \<Rightarrow> 'c station list" where
  "stations_loop [] stations = stations"
| "stations_loop (node # rest) stations = stations_loop rest (stations @ [station_of node])"

text \<open>
  \<^verbatim>\<open>get_fuel_stations\<close> (lines 105 to 129): an exception of \<^verbatim>\<open>api.query\<close> is not
  caught here.
\<close>

definition get_fuel_stations ::
  "'c world \<Rightarrow> 'c \<times> 'c \<times> 'c \<times> 'c \<Rightarrow> (py_error + 'c station list) \<times> 'c event list" where
  "get_fuel_stations w box =
     (let query = fuel_query box
      in (case api_query w query of
            Inl e \<Rightarrow> Inl e
          | Inr nodes \<Rightarrow> Inr (stations_loop nodes []),
          [Fuel_request query]))"

text \<open>
  The geodata service answering a node query from its data, as the query language
  defines it: a statement selects the nodes within its bounding box that pass each of
  its filters, \<^verbatim>\<open>['k'='v']\<close> asking that the key \<open>k\<close> has the value \<open>v\<close> and
  \<^verbatim>\<open>['k']\<close> that the key \<open>k\<close> is present; the union holds each node once.
\<close>

definition passes :: "tags \<Rightarrow> tag_filter \<Rightarrow> bool" where
  "passes t f =
     (case f of
        Tag_is k v \<Rightarrow> map_of t k = Some v
      | Tag_present k \<Rightarrow> map_of t k \<noteq> None)"

definition in_box :: "'c::linorder \<times> 'c \<times> 'c \<times> 'c \<Rightarrow> 'c osm_node \<Rightarrow> bool" where
  "in_box box node =
     (case box of (south, west, north, east) \<Rightarrow>
        south \<le> node_lat node \<and> node_lat node \<le> north \<and>
        west \<le> node_lon node \<and> node_lon node \<le> east)"

definition selected :: "'c::linorder node_query \<Rightarrow> 'c osm_node \<Rightarrow> bool" where
  "selected q node =
     list_ex (\<lambda>s. list_all (passes (node_tags node)) (filters s) \<and> in_box (bbox s) node) q"

definition overpass_service ::
  "'c::linorder osm_node list \<Rightarrow> 'c node_query \<Rightarrow> py_error + 'c osm_node list" where
  "overpass_service db q = Inr (filter (selected q) db)"

section \<open>The map renderer\<close>

text \<open>\<^verbatim>\<open>str(n)\<close> for an integer, as an f-string writes it.\<close>

fun str_nat :: "nat \<Rightarrow> string" where
  "str_nat n =
     (if n < 10 then [char_of (48 + n)]
      else str_nat (n div 10) @ [char_of (48 + n mod 10)])"

declare str_nat.simps [simp del]

definition str_int :: "int \<Rightarrow> string" where
  "str_int i = (if i < 0 then CHR ''-'' # str_nat (nat (- i)) else str_nat (nat i))"

text \<open>
  \<^verbatim>\<open>add_fuel_stations_to_map\<close> (lines 131 to 142). The glyphs of the popup are
  U+2705 (a tick) and U+274C (a cross).
\<close>

definition station_marker :: "'c station \<Rightarrow> 'c marker" where
  "station_marker station =
     (let popup0 = [Str (st_name station @ ''<br>'')];
          popup1 = popup0 @ (if sp98 station then [Glyph 9989, Str '' SP98<br>'']
                              else [Glyph 10060, Str '' SP98<br>'']);
          popup2 = popup1 @ (if sp95 station then [Glyph 9989, Str '' SP95'']
                              else [Glyph 10060, Str '' SP95'']);
          colour = (if sp95 station \<and> sp98 station then ''green'' else ''orange'')
      in \<lparr>location = (st_lat station, st_lon station),
          popup = popup2,
          icon_color = colour,
          icon_name = Some ''tint''\<rparr>)"

fun add_fuel_stations_to_map :: "'c speed_map \<Rightarrow> 'c station list \<Rightarrow> 'c speed_map" where
  "add_fuel_stations_to_map m [] = m"
| "add_fuel_stations_to_map m (station # rest) =
     add_fuel_stations_to_map
       (m\<lparr>children := children m @ [Marker_child (station_marker station)]\<rparr>) rest"

text \<open>
  The body of the marker loop (lines 162 to 176). \<^verbatim>\<open>parse_speed\<close> never raises, so
  the \<^verbatim>\<open>except\<close> branch of line 170 is never taken.
\<close>

definition point_marker :: "int \<Rightarrow> 'c observation \<Rightarrow> 'c marker" where
  "point_marker limit_speed pt =
     (let speed_raw = maxspeed pt;
          (colour, label) =
            (case parse_speed speed_raw of
               None \<Rightarrow> (''gray'', ''Unknown'')
             | Some speed_val \<Rightarrow>
                 (if speed_val \<ge> limit_speed then ''red'' else ''blue'',
                  str_int speed_val @ '' km/h''))
      in \<lparr>location = (lat pt, lon pt),
          popup = [Str (''Maxspeed: '' @ label)],
          icon_color = colour,
          icon_name = None\<rparr>)"

fun markers_loop :: "int \<Rightarrow> 'c observation list \<Rightarrow> 'c marker list \<Rightarrow> 'c marker list" where
  "markers_loop limit_speed [] cluster = cluster"
| "markers_loop limit_speed (pt # rest) cluster =
     markers_loop limit_speed rest (cluster @ [point_marker limit_speed pt])"

text \<open>
  \<^verbatim>\<open>filter(None, xs)\<close> keeps the items that are true as a condition: it drops
  \<^verbatim>\<open>None\<close> and it drops the integer 0. \<^verbatim>\<open>max(it, default=None)\<close> is \<^verbatim>\<open>None\<close> when
  nothing is left.
\<close>

fun filter_None :: "int option list \<Rightarrow> int list" where
  "filter_None [] = []"
| "filter_None (None # xs) = filter_None xs"
| "filter_None (Some n # xs) = (if n = 0 then filter_None xs else n # filter_None xs)"

definition max_default_None :: "int list \<Rightarrow> int option" where
  "max_default_None xs = (case xs of [] \<Rightarrow> None | x # rest \<Rightarrow> Some (fold max rest x))"

text \<open>Lines 182 to 184: the speed of the segment between two observations.\<close>

definition seg_speed :: "'c observation \<Rightarrow> 'c observation \<Rightarrow> int option" where
  "seg_speed r1 r2 =
     (let s1 = parse_speed (maxspeed r1); s2 = parse_speed (maxspeed r2)
      in max_default_None (filter_None [s1, s2]))"

text \<open>The three layer groups of lines 156 to 158.\<close>

datatype layer = fast_group | slow_group | unknown_group

record 'c layers =
  fast :: "'c feature_group"
  slow :: "'c feature_group"
  unknown :: "'c feature_group"

definition new_layers :: "int \<Rightarrow> 'c layers" where
  "new_layers limit_speed =
     \<lparr>fast = \<lparr>group_name = [Str ''Speed '', Glyph 8805, Str ('' '' @ str_int limit_speed @ '' km/h'')],
              shown = True, lines = []\<rparr>,
      slow = \<lparr>group_name = [Str (''Speed < '' @ str_int limit_speed @ '' km/h'')],
              shown = True, lines = []\<rparr>,
      unknown = \<lparr>group_name = [Str ''Unknown speed''], shown = True, lines = []\<rparr>\<rparr>"

definition add_to :: "'c polyline \<Rightarrow> layer \<Rightarrow> 'c layers \<Rightarrow> 'c layers" where
  "add_to line g ls =
     (case g of
        fast_group \<Rightarrow> ls\<lparr>fast := (fast ls)\<lparr>lines := lines (fast ls) @ [line]\<rparr>\<rparr>
      | slow_group \<Rightarrow> ls\<lparr>slow := (slow ls)\<lparr>lines := lines (slow ls) @ [line]\<rparr>\<rparr>
      | unknown_group \<Rightarrow> ls\<lparr>unknown := (unknown ls)\<lparr>lines := lines (unknown ls) @ [line]\<rparr>\<rparr>)"

text \<open>Lines 186 to 196: colour, label and group of a segment speed.\<close>

definition seg_style :: "int \<Rightarrow> int option \<Rightarrow> string \<times> string \<times> layer" where
  "seg_style limit_speed sp =
     (case sp of
        None \<Rightarrow> (''gray'', ''Unknown speed'', unknown_group)
      | Some v \<Rightarrow>
          if v \<ge> limit_speed then (''red'', str_int v @ '' km/h'', fast_group)
          else (''blue'', str_int v @ '' km/h'', slow_group))"

text \<open>The body of the line loop (lines 180 to 203), for the index \<open>i\<close>.\<close>

definition draw_line :: "int \<Rightarrow> 'c observation list \<Rightarrow> nat \<Rightarrow> 'c layers \<Rightarrow> 'c layers" where
  "draw_line limit_speed results i ls =
     (let r1 = results ! i; r2 = results ! (i + 1);
          (colour, label, g) = seg_style limit_speed (seg_speed r1 r2)
      in add_to \<lparr>locations = [(lat r1, lon r1), (lat r2, lon r2)],
                 color = colour,
                 weight = 4,
                 line_popup = [Str (''Maxspeed: '' @ label)]\<rparr> g ls)"

text \<open>
  \<^verbatim>\<open>for i in range(len(results) - 1)\<close>: no index when the list is empty (the
  subtraction on \<open>nat\<close> stops at 0, as the empty range does).
\<close>

definition draw_lines :: "int \<Rightarrow> 'c observation list \<Rightarrow> 'c layers \<Rightarrow> 'c layers" where
  "draw_lines limit_speed results ls =
     fold (draw_line limit_speed results) [0..<length results - 1] ls"

text \<open>
  \<^verbatim>\<open>build_speed_map\<close> (lines 144 to 234). The marker cluster is built and never
  added to the map: line 206, which would add it, is a comment.
\<close>

definition build_speed_map ::
  "'c::linorder world \<Rightarrow> ('c \<times> 'c) list \<Rightarrow> 'c observation list \<Rightarrow> int
     \<Rightarrow> (py_error + 'c speed_map) \<times> 'c event list" where
  "build_speed_map w points results limit_speed =
     (case first_item points of
        Inl e \<Rightarrow> (Inl e, [])
      | Inr start \<Rightarrow>
          (let m0 = \<lparr>map_location = start, zoom_start = 11, children = []\<rparr>
           in case get_bounding_box points of
                Inl e \<Rightarrow> (Inl e, [])
              | Inr bounding_box \<Rightarrow>
                  (case get_fuel_stations w bounding_box of
                     (Inl e, tr) \<Rightarrow> (Inl e, tr)
                   | (Inr stations, tr) \<Rightarrow>
                       (let m1 = add_fuel_stations_to_map m0 stations;
                            cluster = markers_loop limit_speed results [];
                            ls = draw_lines limit_speed results (new_layers limit_speed);
                            m2 = m1\<lparr>children := children m1 @
                                   [Group_child (fast ls),
                                    Group_child (slow ls),
                                    Group_child (unknown ls),
                                    Layer_control False,
                                    Legend_element limit_speed]\<rparr>
                        in (Inr m2, tr)))))"

section \<open>The pipeline\<close>

record args =
  file_arg :: string
  limit_speed_arg :: int
  max_points_arg :: int

text \<open>
  \<^verbatim>\<open>main\<close> (lines 236 to 251), after the arguments are parsed: the exception that
  ends the run, if any, and the effects up to then.
\<close>

definition main :: "'c::linorder world \<Rightarrow> args \<Rightarrow> (py_error + unit) \<times> 'c event list" where
  "main w a =
     (case load_gpx_points w (file_arg a) of
        Inl e \<Rightarrow> (Inl e, [])
      | Inr points \<Rightarrow>
          (case get_sample_points points (max_points_arg a) of
             Inl e \<Rightarrow> (Inl e, [])
           | Inr sampled_points \<Rightarrow>
               (case collect_speed_data w sampled_points (limit_speed_arg a) of
                  (results, tr1) \<Rightarrow>
                    (case build_speed_map w sampled_points results (limit_speed_arg a) of
                       (Inl e, tr2) \<Rightarrow> (Inl e, tr1 @ tr2)
                     | (Inr m, tr2) \<Rightarrow>
                         (let filename = ''speed_map_'' @ timestamp w @ ''.html''
                          in (Inr (), tr1 @ tr2 @ [File_saved filename m]))))))"

section \<open>A small world to run the program in\<close>

text \<open>
  A service with three fuel nodes inside the box of the track and one outside it: the
  first sells both grades, the second has its only grade tag set to \<open>no\<close>, the third
  is tagged as a fuel station without any grade tag.
\<close>

definition demo_db :: "int osm_node list" where
  "demo_db =
     [\<lparr>node_lat = 2, node_lon = 3,
       node_tags = [(''amenity'', ''fuel''), (''fuel:octane_95'', ''yes''),
                    (''fuel:octane_98'', ''yes''), (''name'', ''Relais'')]\<rparr>,
      \<lparr>node_lat = 1, node_lon = 2,
       node_tags = [(''amenity'', ''fuel''), (''fuel:octane_95'', ''no'')]\<rparr>,
      \<lparr>node_lat = 2, node_lon = 2,
       node_tags = [(''amenity'', ''fuel'')]\<rparr>,
      \<lparr>node_lat = 9, node_lon = 9,
       node_tags = [(''amenity'', ''fuel''), (''fuel:octane_98'', ''yes'')]\<rparr>]"

text \<open>
  A track of two points; the first speed request fails, the second is answered with
  one element tagged \<open>maxspeed=90\<close>.
\<close>

definition demo_world :: "int world" where
  "demo_world =
     \<lparr>gpx_file = (\<lambda>p. Inr [[[(1, 2), (3, 4)]]]),
      http_post = (\<lambda>i la lo.
        if i = 0 then Post_raises RequestException
        else Response 200
               (Some \<lparr>elements = Some [Element (Some [(''maxspeed'', ''90'')])]\<rparr>)),
      api_query = overpass_service demo_db,
      timestamp = ''20250101_120000''\<rparr>"

definition demo_args :: args where
  "demo_args = \<lparr>file_arg = ''track.gpx'', limit_speed_arg = 110, max_points_arg = 400\<rparr>"

section \<open>The indices of the sampler, as the specification words them\<close>

text \<open>
  The \<open>m\<close> evenly spaced integer indices that span \<open>0\<close> to \<open>n - 1\<close>: the \<open>k\<close>-th
  is the \<open>k\<close>-th of \<open>m - 1\<close> equal steps from \<open>0\<close> to \<open>n - 1\<close>, rounded down. This
  definition is not taken from the code; the sampler is compared with it.
\<close>

definition evenly_spaced :: "nat \<Rightarrow> nat \<Rightarrow> nat list" where
  "evenly_spaced n m = map (\<lambda>k. (k * (n - 1)) div (m - 1)) [0..<m]"

section \<open>Events and worlds used to state the pipeline's properties\<close>

text \<open>An event other than the write of the output file: a request to the service.\<close>

definition is_request :: "'c event \<Rightarrow> bool" where
  "is_request ev = (case ev of File_saved _ _ \<Rightarrow> False | _ \<Rightarrow> True)"

text \<open>
  The small world with a track file that parses to tracks and segments without a
  point, and the small world with a fuel station query that fails.
\<close>

definition empty_world :: "int world" where
  "empty_world = demo_world\<lparr>gpx_file := (\<lambda>p. Inr [[[]], []])\<rparr>"

definition failing_world :: "int world" where
  "failing_world = demo_world\<lparr>api_query := (\<lambda>q. Inl OverpassException)\<rparr>"

section \<open>Properties of the speed code resolver\<close>

lemma parse_speed_None: "parse_speed None = None"
  by (simp add: parse_speed_def parse_speed_body_def)

lemma parse_speed_Some:
  "parse_speed (Some s) =
     (case map_of SPEED_CODE_MAPPING s of
        Some v \<Rightarrow> Some v
      | None \<Rightarrow>
          (case str_split s of
             [] \<Rightarrow> None
           | tok # _ \<Rightarrow> (case py_int tok of Inl _ \<Rightarrow> None | Inr n \<Rightarrow> Some n)))"
  by (simp add: parse_speed_def parse_speed_body_def first_item_def
      split: option.splits list.splits sum.splits)

lemma parse_speed_unknown_iff_raised:
  "(parse_speed raw = None) = (\<exists>e. parse_speed_body raw = Inl e)"
  by (cases "parse_speed_body raw") (simp_all add: parse_speed_def)

lemmas speed_eval =
  SPEED_CODE_MAPPING_def str_split_def is_space_def py_int_def is_digit_def digit_val_def

text \<open>
  C3. The resolver has a result on every raw value, \<^verbatim>\<open>None\<close> included, and the result
  is unknown exactly when the body of its \<^verbatim>\<open>try\<close> block raised. Its rules apply in
  order: a raw value that is a key of the code table gives the table's value (50, 80,
  110 and 130 for the four French codes); otherwise the first token between white
  space, read as an integer, is the result, with no conversion of units (\<open>90 mph\<close>
  gives 90); otherwise the result is unknown, as for the empty string, for
  \<^verbatim>\<open>None\<close> and for \<open>variable\<close>.
\<close>

theorem parse_speed_rules:
  "parse_speed raw =
     (case raw of
        None \<Rightarrow> None
      | Some s \<Rightarrow>
          (case map_of SPEED_CODE_MAPPING s of
             Some v \<Rightarrow> Some v
           | None \<Rightarrow>
               (case str_split s of
                  [] \<Rightarrow> None
                | tok # _ \<Rightarrow> (case py_int tok of Inl _ \<Rightarrow> None | Inr n \<Rightarrow> Some n))))
   \<and> (parse_speed raw = None) = (\<exists>e. parse_speed_body raw = Inl e)
   \<and> parse_speed (Some ''FR:urban'') = Some 50
   \<and> parse_speed (Some ''FR:rural'') = Some 80
   \<and> parse_speed (Some ''FR:trunk'') = Some 110
   \<and> parse_speed (Some ''FR:motorway'') = Some 130
   \<and> parse_speed (Some ''90'') = Some 90
   \<and> parse_speed (Some ''90 mph'') = Some 90
   \<and> parse_speed (Some '''') = None
   \<and> parse_speed None = None
   \<and> parse_speed (Some ''variable'') = None"
proof -
  have rules: "parse_speed raw =
     (case raw of
        None \<Rightarrow> None
      | Some s \<Rightarrow>
          (case map_of SPEED_CODE_MAPPING s of
             Some v \<Rightarrow> Some v
           | None \<Rightarrow>
               (case str_split s of
                  [] \<Rightarrow> None
                | tok # _ \<Rightarrow> (case py_int tok of Inl _ \<Rightarrow> None | Inr n \<Rightarrow> Some n))))"
    by (cases raw) (simp_all add: parse_speed_None parse_speed_Some)
  have codes: "parse_speed (Some ''FR:urban'') = Some 50"
    "parse_speed (Some ''FR:rural'') = Some 80"
    "parse_speed (Some ''FR:trunk'') = Some 110"
    "parse_speed (Some ''FR:motorway'') = Some 130"
    by (simp_all add: parse_speed_Some SPEED_CODE_MAPPING_def)
  have nums: "parse_speed (Some ''90'') = Some 90"
    "parse_speed (Some ''90 mph'') = Some 90"
    by (simp_all add: parse_speed_Some speed_eval)
  have unknowns: "parse_speed (Some '''') = None"
    "parse_speed (Some ''variable'') = None"
    by (simp_all add: parse_speed_Some speed_eval)
  from rules codes nums unknowns parse_speed_None parse_speed_unknown_iff_raised [of raw]
  show ?thesis
    by blast
qed

section \<open>Properties of the speed lookup\<close>

lemma speeds_of_untagged:
  "list_all (\<lambda>el. case el of
       Element None \<Rightarrow> True
     | Element (Some t) \<Rightarrow> map_of t ''maxspeed'' = None
     | Malformed _ \<Rightarrow> False) els \<Longrightarrow> speeds_of els = Inr []"
  by (induction els rule: speeds_of.induct) (auto split: option.splits)

lemma speeds_of_well_formed:
  "list_all (\<lambda>el. case el of Element _ \<Rightarrow> True | Malformed _ \<Rightarrow> False) els \<Longrightarrow>
     \<exists>speeds. speeds_of els = Inr speeds"
  by (induction els rule: speeds_of.induct) (auto split: option.splits)

lemma speeds_of_malformed:
  "Malformed e \<in> set els \<Longrightarrow> \<exists>e'. speeds_of els = Inl e'"
  by (induction els rule: speeds_of.induct) (auto split: option.splits sum.splits)

lemma speeds_of_first:
  assumes "list_all (\<lambda>el. case el of
       Element None \<Rightarrow> True
     | Element (Some t) \<Rightarrow> map_of t ''maxspeed'' = None
     | Malformed _ \<Rightarrow> False) pre"
    and "map_of t ''maxspeed'' = Some v"
    and "list_all (\<lambda>el. case el of Element _ \<Rightarrow> True | Malformed _ \<Rightarrow> False) post"
  shows "\<exists>rest. speeds_of (pre @ Element (Some t) # post) = Inr (v # rest)"
  using assms(1)
proof (induction pre rule: speeds_of.induct)
  case 1
  from speeds_of_well_formed [OF assms(3)] obtain speeds where "speeds_of post = Inr speeds"
    by blast
  then show ?case using assms(2) by simp
next
  case (2 e els)
  then show ?case by simp
next
  case (3 t' els)
  then obtain rest where "speeds_of (els @ Element (Some t) # post) = Inr (v # rest)"
    by (auto split: option.splits)
  with 3(2) show ?case by (auto split: option.splits)
qed

lemma query_max_speed_raises: "query_max_speed (Post_raises e) = None"
  by (simp add: query_max_speed_def query_max_speed_body_def)

lemma query_max_speed_status:
  "status \<noteq> 200 \<Longrightarrow> query_max_speed (Response status body) = None"
  by (simp add: query_max_speed_def query_max_speed_body_def)

lemma query_max_speed_not_json: "query_max_speed (Response 200 None) = None"
  by (simp add: query_max_speed_def query_max_speed_body_def)

lemma query_max_speed_no_elements:
  "query_max_speed (Response 200 (Some \<lparr>elements = None\<rparr>)) = None"
  by (simp add: query_max_speed_def query_max_speed_body_def)

lemma query_max_speed_elements:
  "query_max_speed (Response 200 (Some \<lparr>elements = Some els\<rparr>)) =
     (case speeds_of els of Inl _ \<Rightarrow> None | Inr [] \<Rightarrow> None | Inr (v # _) \<Rightarrow> Some v)"
  by (simp add: query_max_speed_def query_max_speed_body_def split: sum.splits list.splits)

text \<open>
  C8. The speed lookup returns \<^verbatim>\<open>None\<close> when the request raises (a failure or a
  timeout), when the status is not 200, when the body is not JSON or has no
  \<^verbatim>\<open>elements\<close>, when an item of \<^verbatim>\<open>elements\<close> is malformed, and when no element has
  the key \<^verbatim>\<open>maxspeed\<close> among its tags. When the status is 200, every item is well
  formed and some element has the key \<^verbatim>\<open>maxspeed\<close>, it returns the value of that
  key in the first such element. It returns \<^verbatim>\<open>None\<close> in every case but that one, an
  exception in the \<^verbatim>\<open>try\<close> block included: nothing is raised to the caller.
  Success of the request is status 200, as line 63 tests it.
\<close>

theorem query_max_speed_never_raises:
  "query_max_speed (Post_raises e) = None
   \<and> (status \<noteq> 200 \<longrightarrow> query_max_speed (Response status body) = None)
   \<and> query_max_speed (Response 200 None) = None
   \<and> query_max_speed (Response 200 (Some \<lparr>elements = None\<rparr>)) = None
   \<and> (Malformed e' \<in> set els \<longrightarrow>
        query_max_speed (Response 200 (Some \<lparr>elements = Some els\<rparr>)) = None)
   \<and> (list_all (\<lambda>el. case el of
            Element None \<Rightarrow> True
          | Element (Some t) \<Rightarrow> map_of t ''maxspeed'' = None
          | Malformed _ \<Rightarrow> False) els \<longrightarrow>
        query_max_speed (Response 200 (Some \<lparr>elements = Some els\<rparr>)) = None)
   \<and> (list_all (\<lambda>el. case el of
            Element None \<Rightarrow> True
          | Element (Some t) \<Rightarrow> map_of t ''maxspeed'' = None
          | Malformed _ \<Rightarrow> False) pre
        \<and> map_of t ''maxspeed'' = Some v
        \<and> list_all (\<lambda>el. case el of Element _ \<Rightarrow> True | Malformed _ \<Rightarrow> False) post \<longrightarrow>
        query_max_speed
          (Response 200 (Some \<lparr>elements = Some (pre @ Element (Some t) # post)\<rparr>)) = Some v)
   \<and> (query_max_speed outcome = None) =
       (\<forall>v. query_max_speed_body outcome \<noteq> Inr (Some v))"
proof -
  have malformed: "Malformed e' \<in> set els \<longrightarrow>
        query_max_speed (Response 200 (Some \<lparr>elements = Some els\<rparr>)) = None"
    using speeds_of_malformed [of e' els] by (auto simp: query_max_speed_elements)
  have untagged: "list_all (\<lambda>el. case el of
            Element None \<Rightarrow> True
          | Element (Some t) \<Rightarrow> map_of t ''maxspeed'' = None
          | Malformed _ \<Rightarrow> False) els \<longrightarrow>
        query_max_speed (Response 200 (Some \<lparr>elements = Some els\<rparr>)) = None"
    by (simp add: query_max_speed_elements speeds_of_untagged)
  have tagged: "list_all (\<lambda>el. case el of
            Element None \<Rightarrow> True
          | Element (Some t) \<Rightarrow> map_of t ''maxspeed'' = None
          | Malformed _ \<Rightarrow> False) pre
        \<and> map_of t ''maxspeed'' = Some v
        \<and> list_all (\<lambda>el. case el of Element _ \<Rightarrow> True | Malformed _ \<Rightarrow> False) post \<longrightarrow>
        query_max_speed
          (Response 200 (Some \<lparr>elements = Some (pre @ Element (Some t) # post)\<rparr>)) = Some v"
  proof
    assume a: "list_all (\<lambda>el. case el of
            Element None \<Rightarrow> True
          | Element (Some t) \<Rightarrow> map_of t ''maxspeed'' = None
          | Malformed _ \<Rightarrow> False) pre
        \<and> map_of t ''maxspeed'' = Some v
        \<and> list_all (\<lambda>el. case el of Element _ \<Rightarrow> True | Malformed _ \<Rightarrow> False) post"
    then obtain rest where "speeds_of (pre @ Element (Some t) # post) = Inr (v # rest)"
      using speeds_of_first [of pre t v post] by blast
    then show "query_max_speed
          (Response 200 (Some \<lparr>elements = Some (pre @ Element (Some t) # post)\<rparr>)) = Some v"
      by (simp add: query_max_speed_elements)
  qed
  have total: "(query_max_speed outcome = None) =
       (\<forall>v. query_max_speed_body outcome \<noteq> Inr (Some v))"
    by (cases "query_max_speed_body outcome") (auto simp: query_max_speed_def)
  from malformed untagged tagged total query_max_speed_raises query_max_speed_status
    query_max_speed_not_json query_max_speed_no_elements
  show ?thesis by blast
qed

theorem query_max_speed_never_raises_witness:
  "(404::int) \<noteq> 200
   \<and> query_max_speed (Response 404 None) = None
   \<and> Malformed AttributeError \<in> set [Element (Some [(''maxspeed'', ''70'')]), Malformed AttributeError]
   \<and> query_max_speed (Response 200 (Some \<lparr>elements =
         Some [Element (Some [(''maxspeed'', ''70'')]), Malformed AttributeError]\<rparr>)) = None
   \<and> query_max_speed (Response 200 (Some \<lparr>elements =
         Some [Element None, Element (Some [(''highway'', ''primary'')])]\<rparr>)) = None
   \<and> map_of [(''highway'', ''primary''), (''maxspeed'', ''50'')] ''maxspeed'' = Some ''50''
   \<and> query_max_speed (Response 200 (Some \<lparr>elements =
         Some ([Element None, Element (Some [(''highway'', ''primary'')])] @
               Element (Some [(''highway'', ''primary''), (''maxspeed'', ''50'')]) #
               [Element (Some [(''maxspeed'', ''90'')])])\<rparr>)) = Some ''50''"
  using query_max_speed_never_raises [of RequestException 404 None AttributeError
      "[Element (Some [(''maxspeed'', ''70'')]), Malformed AttributeError]"
      "[Element None, Element (Some [(''highway'', ''primary'')])]"
      "[(''highway'', ''primary''), (''maxspeed'', ''50'')]" "''50''"
      "[Element (Some [(''maxspeed'', ''90'')])]" "Post_raises RequestException"]
    query_max_speed_never_raises [of RequestException 404 None AttributeError
      "[Element None, Element (Some [(''highway'', ''primary'')])]"
      "[]" "[]" "''50''" "[]" "Post_raises RequestException"]
  by simp

section \<open>Properties of the collection loop\<close>

lemma collect_loop_eq:
  "collect_loop w i points results tr =
     (results @ map (\<lambda>(k, la, lo). \<lparr>lat = la, lon = lo,
                       maxspeed = query_max_speed (http_post w k la lo)\<rparr>) (enumerate i points),
      tr @ map (\<lambda>(la, lo). Speed_request la lo) points)"
  by (induction points arbitrary: i results tr) auto

lemma collect_speed_data_eq:
  "collect_speed_data w points limit_speed =
     (map (\<lambda>(k, la, lo). \<lparr>lat = la, lon = lo,
              maxspeed = query_max_speed (http_post w k la lo)\<rparr>) (enumerate 0 points),
      map (\<lambda>(la, lo). Speed_request la lo) points)"
  by (simp add: collect_speed_data_def collect_loop_eq)

lemma collect_speed_data_nth:
  "i < length points \<Longrightarrow>
     fst (collect_speed_data w points limit_speed) ! i =
       \<lparr>lat = fst (points ! i), lon = snd (points ! i),
        maxspeed = query_max_speed (http_post w i (fst (points ! i)) (snd (points ! i)))\<rparr>"
  by (simp add: collect_speed_data_eq nth_enumerate_eq split: prod.splits)

lemma collect_speed_data_coords:
  "map (\<lambda>r. (lat r, lon r)) (fst (collect_speed_data w points limit_speed)) = points"
  unfolding collect_speed_data_eq fst_conv
  by (induction points rule: rev_induct) (auto simp: enumerate_append_eq)

text \<open>
  C9. The collection loop returns one observation per point, in the order of the
  points: the \<open>i\<close>-th observation carries the coordinates of the \<open>i\<close>-th point and
  what the lookup of that point returned. A request that raises leaves \<^verbatim>\<open>None\<close> in
  its observation and the loop goes on: the list is as long as the point list
  whatever the requests do, and one request is made per point.
\<close>

theorem collect_speed_data_one_per_point:
  "length (fst (collect_speed_data w points limit_speed)) = length points
   \<and> map (\<lambda>r. (lat r, lon r)) (fst (collect_speed_data w points limit_speed)) = points
   \<and> (\<forall>i < length points.
        fst (collect_speed_data w points limit_speed) ! i =
          \<lparr>lat = fst (points ! i), lon = snd (points ! i),
           maxspeed = query_max_speed (http_post w i (fst (points ! i)) (snd (points ! i)))\<rparr>
        \<and> (\<forall>e. http_post w i (fst (points ! i)) (snd (points ! i)) = Post_raises e \<longrightarrow>
             maxspeed (fst (collect_speed_data w points limit_speed) ! i) = None))
   \<and> snd (collect_speed_data w points limit_speed) = map (\<lambda>(la, lo). Speed_request la lo) points"
proof -
  let ?res = "fst (collect_speed_data w points limit_speed)"
  have len: "length ?res = length points"
    by (simp add: collect_speed_data_eq)
  have each: "\<forall>i < length points.
        ?res ! i =
          \<lparr>lat = fst (points ! i), lon = snd (points ! i),
           maxspeed = query_max_speed (http_post w i (fst (points ! i)) (snd (points ! i)))\<rparr>
        \<and> (\<forall>e. http_post w i (fst (points ! i)) (snd (points ! i)) = Post_raises e \<longrightarrow>
             maxspeed (?res ! i) = None)"
  proof (intro allI impI conjI)
    fix i assume i: "i < length points"
    show "?res ! i =
          \<lparr>lat = fst (points ! i), lon = snd (points ! i),
           maxspeed = query_max_speed (http_post w i (fst (points ! i)) (snd (points ! i)))\<rparr>"
      using i by (rule collect_speed_data_nth)
  next
    fix i e assume i: "i < length points"
      and e: "http_post w i (fst (points ! i)) (snd (points ! i)) = Post_raises e"
    show "maxspeed (?res ! i) = None"
      by (simp add: collect_speed_data_nth [OF i] e query_max_speed_def query_max_speed_body_def)
  qed
  have tr: "snd (collect_speed_data w points limit_speed) = map (\<lambda>(la, lo). Speed_request la lo) points"
    by (simp add: collect_speed_data_eq)
  from len collect_speed_data_coords [of w points limit_speed] each tr show ?thesis by blast
qed

theorem collect_speed_data_one_per_point_witness:
  "(0::nat) < length [(1::int, 2::int), (3, 4)]
   \<and> http_post demo_world 0 (fst ([(1::int, 2::int), (3, 4)] ! 0))
         (snd ([(1::int, 2::int), (3, 4)] ! 0)) = Post_raises RequestException
   \<and> (1::nat) < length [(1::int, 2::int), (3, 4)]
   \<and> fst (collect_speed_data demo_world [(1, 2), (3, 4)] 110) =
       [\<lparr>lat = 1, lon = 2, maxspeed = None\<rparr>, \<lparr>lat = 3, lon = 4, maxspeed = Some ''90''\<rparr>]"
proof -
  let ?pts = "[(1::int, 2::int), (3, 4)]"
  have all: "length (fst (collect_speed_data demo_world ?pts 110)) = length ?pts
   \<and> map (\<lambda>r. (lat r, lon r)) (fst (collect_speed_data demo_world ?pts 110)) = ?pts
   \<and> (\<forall>i < length ?pts.
        fst (collect_speed_data demo_world ?pts 110) ! i =
          \<lparr>lat = fst (?pts ! i), lon = snd (?pts ! i),
           maxspeed = query_max_speed (http_post demo_world i (fst (?pts ! i)) (snd (?pts ! i)))\<rparr>
        \<and> (\<forall>e. http_post demo_world i (fst (?pts ! i)) (snd (?pts ! i)) = Post_raises e \<longrightarrow>
             maxspeed (fst (collect_speed_data demo_world ?pts 110) ! i) = None))
   \<and> snd (collect_speed_data demo_world ?pts 110) = map (\<lambda>(la, lo). Speed_request la lo) ?pts"
    by (rule collect_speed_data_one_per_point)
  then have len: "length (fst (collect_speed_data demo_world ?pts 110)) = 2" by simp
  from all have e0: "fst (collect_speed_data demo_world ?pts 110) ! 0 =
      \<lparr>lat = 1, lon = 2, maxspeed = query_max_speed (http_post demo_world 0 1 2)\<rparr>"
    by auto
  from all have e1: "fst (collect_speed_data demo_world ?pts 110) ! 1 =
      \<lparr>lat = 3, lon = 4, maxspeed = query_max_speed (http_post demo_world 1 3 4)\<rparr>"
    by auto
  have q0: "query_max_speed (http_post demo_world 0 1 2) = None"
    by (simp add: demo_world_def query_max_speed_def query_max_speed_body_def)
  have q1: "query_max_speed (http_post demo_world 1 3 4) = Some ''90''"
    by (simp add: demo_world_def query_max_speed_def query_max_speed_body_def)
  have "fst (collect_speed_data demo_world ?pts 110) =
       [\<lparr>lat = 1, lon = 2, maxspeed = None\<rparr>, \<lparr>lat = 3, lon = 4, maxspeed = Some ''90''\<rparr>]"
    using len e0 e1 q0 q1 by (auto simp: list_eq_iff_nth_eq less_Suc_eq numeral_2_eq_2)
  moreover have "http_post demo_world 0 (fst (?pts ! 0)) (snd (?pts ! 0)) = Post_raises RequestException"
    by (simp add: demo_world_def)
  ultimately show ?thesis by simp
qed

section \<open>Properties of the sampler\<close>

lemma linspace_int_negative: "num < 0 \<Longrightarrow> linspace_int start stop num = Inl ValueError"
  by (simp add: linspace_int_def)

lemma get_sample_points_unchanged:
  "int (length points) \<le> max_points \<Longrightarrow> get_sample_points points max_points = Inr points"
  by (simp add: get_sample_points_def)

lemma get_sample_points_negative:
  "max_points < 0 \<Longrightarrow> get_sample_points points max_points = Inl ValueError"
  by (simp add: get_sample_points_def linspace_int_negative)

subsection \<open>Rounding to the nearest integer\<close>

lemma round_even_of_int: "round_even (of_int n) = n"
  by (simp add: round_even_def)

lemma round_even_lower: "of_int (round_even a) \<ge> a - 1 / 2"
  unfolding round_even_def Let_def by (auto; linarith)

lemma round_even_upper: "of_int (round_even a) \<le> a + 1 / 2"
  unfolding round_even_def Let_def by (auto; linarith)

lemma round_even_ge_floor: "\<lfloor>a\<rfloor> \<le> round_even a"
  by (simp add: round_even_def Let_def)

lemma round_even_le_floor_Suc: "round_even a \<le> \<lfloor>a\<rfloor> + 1"
  by (simp add: round_even_def Let_def)

lemma round_even_mono:
  assumes "a \<le> b"
  shows "round_even a \<le> round_even b"
proof (cases "\<lfloor>a\<rfloor> = \<lfloor>b\<rfloor>")
  case True
  then show ?thesis
    using assms by (auto simp: round_even_def Let_def)
next
  case False
  then have "\<lfloor>a\<rfloor> + 1 \<le> \<lfloor>b\<rfloor>"
    using floor_mono [OF assms] by linarith
  then show ?thesis
    using round_even_le_floor_Suc [of a] round_even_ge_floor [of b] by linarith
qed

subsection \<open>The exponent\<close>

lemma expo_bounds:
  assumes "1 \<le> x"
  shows "0 \<le> expo x" and "2 powi expo x \<le> x" and "x < 2 powi (expo x + 1)"
proof -
  let ?f = "\<lfloor>x\<rfloor>"
  have f: "0 < ?f" using assms by simp
  from bitlen_bounds [OF f] have lo: "2 ^ nat (bitlen ?f - 1) \<le> ?f"
    and hi: "?f < 2 ^ nat (bitlen ?f)" by auto
  have b1: "1 \<le> bitlen ?f"
    using f by (simp add: bitlen_ge_iff_power)
  have e: "expo x = bitlen ?f - 1" using assms by (simp add: expo_def)
  show "0 \<le> expo x" using b1 e by simp
  have "(2::rat) powi expo x = 2 ^ nat (bitlen ?f - 1)"
    using b1 e by (simp add: power_int_def)
  also have "\<dots> = of_int (2 ^ nat (bitlen ?f - 1))" by simp
  also have "\<dots> \<le> of_int ?f" using lo by (simp only: of_int_le_iff)
  also have "\<dots> \<le> x" by simp
  finally show "2 powi expo x \<le> x" .
  have "?f + 1 \<le> 2 ^ nat (bitlen ?f)" using hi by simp
  then have "(of_int (?f + 1) :: rat) \<le> of_int (2 ^ nat (bitlen ?f))"
    by (simp only: of_int_le_iff)
  moreover have "x < of_int (?f + 1)" by linarith
  ultimately have "x < of_int (2 ^ nat (bitlen ?f))" by linarith
  also have "\<dots> = 2 powi (expo x + 1)"
    using b1 e by (simp add: power_int_def)
  finally show "x < 2 powi (expo x + 1)" .
qed

lemma expo_unique:
  assumes "1 \<le> x" "2 powi e \<le> x" "x < 2 powi (e + 1)"
  shows "expo x = e"
proof -
  note b = expo_bounds [OF assms(1)]
  have "(2::rat) powi e < 2 powi (expo x + 1)" using assms(2) b(3) by linarith
  then have 1: "e < expo x + 1"
    by (metis linorder_not_less power_int_increasing one_le_numeral)
  have "(2::rat) powi expo x < 2 powi (e + 1)" using assms(3) b(2) by linarith
  then have 2: "expo x < e + 1"
    by (metis linorder_not_less power_int_increasing one_le_numeral)
  from 1 2 show ?thesis by simp
qed

lemma expo_mono:
  assumes "1 \<le> x" "x \<le> y"
  shows "expo x \<le> expo y"
proof -
  have y: "1 \<le> y" using assms by simp
  have "(2::rat) powi expo x < 2 powi (expo y + 1)"
    using expo_bounds(2) [OF assms(1)] expo_bounds(3) [OF y] assms(2) by linarith
  then have "expo x < expo y + 1"
    by (metis linorder_not_less power_int_increasing one_le_numeral)
  then show ?thesis by simp
qed


subsection \<open>The nearest double of a number from 1\<close>

lemma ulp_pos: "0 < (2::rat) powi e"
  by (simp add: zero_less_power_int)

lemma double_pos_eq:
  "double_pos x = of_int (round_even (x / 2 powi (expo x - 52))) * 2 powi (expo x - 52)"
  by (simp add: double_pos_def Let_def)

lemma scaled_bounds:
  assumes "1 \<le> x"
  shows "2 ^ 52 \<le> x / 2 powi (expo x - 52)" and "x / 2 powi (expo x - 52) < 2 ^ 53"
proof -
  let ?u = "(2::rat) powi (expo x - 52)"
  note b = expo_bounds [OF assms]
  have u: "0 < ?u" by (rule ulp_pos)
  have lo: "2 ^ 52 * ?u = 2 powi expo x"
    using power_int_add [of "2::rat" 52 "expo x - 52"] by simp
  have hi: "2 ^ 53 * ?u = 2 powi (expo x + 1)"
    using power_int_add [of "2::rat" 53 "expo x - 52"] by (simp add: algebra_simps)
  show "2 ^ 52 \<le> x / ?u"
    using b(2) u lo by (simp add: pos_le_divide_eq)
  show "x / ?u < 2 ^ 53"
    using b(3) u hi by (simp add: pos_divide_less_eq)
qed

lemma mantissa_bounds:
  assumes "1 \<le> x"
  shows "2 ^ 52 \<le> round_even (x / 2 powi (expo x - 52))"
    and "round_even (x / 2 powi (expo x - 52)) \<le> 2 ^ 53"
proof -
  let ?a = "x / 2 powi (expo x - 52)"
  note s = scaled_bounds [OF assms]
  have "round_even (of_int (2 ^ 52)) \<le> round_even ?a"
    by (rule round_even_mono) (use s(1) in simp)
  then show "2 ^ 52 \<le> round_even ?a" by (simp only: round_even_of_int)
  have "round_even ?a \<le> round_even (of_int (2 ^ 53))"
    by (rule round_even_mono) (use s(2) in simp)
  then show "round_even ?a \<le> 2 ^ 53" by (simp only: round_even_of_int)
qed

lemma double_pos_bounds:
  assumes "1 \<le> x"
  shows "2 powi expo x \<le> double_pos x" and "double_pos x \<le> 2 powi (expo x + 1)"
proof -
  let ?u = "(2::rat) powi (expo x - 52)"
  let ?m = "round_even (x / ?u)"
  note m = mantissa_bounds [OF assms]
  have u: "0 < ?u" by (rule ulp_pos)
  have lo: "2 ^ 52 * ?u = 2 powi expo x"
    using power_int_add [of "2::rat" 52 "expo x - 52"] by simp
  have hi: "2 ^ 53 * ?u = 2 powi (expo x + 1)"
    using power_int_add [of "2::rat" 53 "expo x - 52"] by (simp add: algebra_simps)
  have "(of_int (2 ^ 52) :: rat) \<le> of_int ?m" using m(1) by (simp only: of_int_le_iff)
  then have "2 ^ 52 * ?u \<le> of_int ?m * ?u" using u by simp
  then show "2 powi expo x \<le> double_pos x" unfolding double_pos_eq lo .
  have "(of_int ?m :: rat) \<le> of_int (2 ^ 53)" using m(2) by (simp only: of_int_le_iff)
  then have "of_int ?m * ?u \<le> 2 ^ 53 * ?u" using u by simp
  then show "double_pos x \<le> 2 powi (expo x + 1)" unfolding double_pos_eq hi .
qed

lemma double_pos_ge_1: "1 \<le> x \<Longrightarrow> 1 \<le> double_pos x"
proof -
  assume x: "1 \<le> x"
  have "(1::rat) = 2 powi 0" by simp
  also have "\<dots> \<le> 2 powi expo x"
    by (rule power_int_increasing) (use expo_bounds(1) [OF x] in simp_all)
  also have "\<dots> \<le> double_pos x" by (rule double_pos_bounds(1) [OF x])
  finally show ?thesis .
qed

lemma double_pos_mono:
  assumes "1 \<le> x" "x \<le> y"
  shows "double_pos x \<le> double_pos y"
proof (cases "expo x = expo y")
  case True
  let ?u = "(2::rat) powi (expo y - 52)"
  have u: "0 < ?u" by (rule ulp_pos)
  have "x / ?u \<le> y / ?u" using assms(2) u by (simp add: divide_right_mono)
  then have "round_even (x / ?u) \<le> round_even (y / ?u)" by (rule round_even_mono)
  then have "(of_int (round_even (x / ?u)) :: rat) \<le> of_int (round_even (y / ?u))"
    by (simp only: of_int_le_iff)
  then show ?thesis using u by (simp add: double_pos_eq True)
next
  case False
  have y: "1 \<le> y" using assms by simp
  have "expo x + 1 \<le> expo y" using expo_mono [OF assms] False by simp
  then have "(2::rat) powi (expo x + 1) \<le> 2 powi expo y"
    by (rule power_int_increasing) simp
  with double_pos_bounds(2) [OF assms(1)] double_pos_bounds(1) [OF y] show ?thesis
    by linarith
qed

lemma double_pos_error:
  assumes "1 \<le> x"
  shows "double_pos x \<le> x + x / 2 ^ 53" and "x - x / 2 ^ 53 \<le> double_pos x"
proof -
  let ?u = "(2::rat) powi (expo x - 52)"
  let ?a = "x / ?u"
  have u: "0 < ?u" by (rule ulp_pos)
  have xa: "?a * ?u = x" using u by simp
  have half: "?u / 2 \<le> x / 2 ^ 53"
  proof -
    have "2 ^ 52 * ?u = 2 powi expo x"
      using power_int_add [of "2::rat" 52 "expo x - 52"] by simp
    then have "2 ^ 52 * ?u \<le> x" using expo_bounds(2) [OF assms] by simp
    then show ?thesis by (simp add: field_simps)
  qed
  have "of_int (round_even ?a) * ?u \<le> (?a + 1 / 2) * ?u"
    using round_even_upper [of ?a] u by (simp only: mult_le_cancel_right_pos)
  also have "\<dots> = x + ?u / 2" using xa by (simp add: algebra_simps)
  finally have "double_pos x \<le> x + ?u / 2" unfolding double_pos_eq .
  then show "double_pos x \<le> x + x / 2 ^ 53" using half by linarith
  have "(?a - 1 / 2) * ?u \<le> of_int (round_even ?a) * ?u"
    using round_even_lower [of ?a] u by (simp only: mult_le_cancel_right_pos)
  moreover have "(?a - 1 / 2) * ?u = x - ?u / 2" using xa by (simp add: algebra_simps)
  ultimately have "x - ?u / 2 \<le> double_pos x" unfolding double_pos_eq by simp
  then show "x - x / 2 ^ 53 \<le> double_pos x" using half by linarith
qed

lemma double_pos_of_int:
  assumes "1 \<le> d" "d < 2 ^ 53"
  shows "double_pos (of_int d) = of_int d"
proof -
  let ?x = "of_int d :: rat"
  have x: "1 \<le> ?x" using assms by simp
  have "(2::rat) powi expo ?x \<le> ?x" by (rule expo_bounds(2) [OF x])
  also have "?x < of_int (2 ^ 53)" using assms(2) by (simp only: of_int_less_iff)
  finally have "(2::rat) powi expo ?x < 2 powi 53" by simp
  then have "expo ?x < 53"
    by (metis linorder_not_less power_int_increasing one_le_numeral)
  then have e: "expo ?x \<le> 52" by simp
  define j where "j = nat (52 - expo ?x)"
  have u: "(2::rat) powi (expo ?x - 52) = 1 / 2 ^ j"
  proof -
    have h: "expo ?x - 52 = - int j" using e by (simp add: j_def)
    have "(2::rat) powi (expo ?x - 52) = 2 powi (- int j)" by (simp only: h)
    also have "\<dots> = inverse (2 powi int j)" by (rule power_int_minus)
    also have "\<dots> = 1 / 2 ^ j" by (simp add: inverse_eq_divide)
    finally show ?thesis .
  qed
  have "?x / (1 / 2 ^ j) = of_int (d * 2 ^ j)" by simp
  then have "round_even (?x / (1 / 2 ^ j)) = d * 2 ^ j"
    by (simp only: round_even_of_int)
  then show ?thesis unfolding double_pos_eq u by simp
qed



lemma double_pos_representable:
  assumes "2 ^ 52 \<le> m" "m < 2 ^ 53" "1 \<le> of_int m * (2::rat) powi j"
  shows "double_pos (of_int m * 2 powi j) = of_int m * 2 powi j"
proof -
  let ?x = "of_int m * (2::rat) powi j"
  have u: "0 < (2::rat) powi j" by (rule ulp_pos)
  have lo: "2 ^ 52 * (2::rat) powi j = 2 powi (j + 52)"
    using power_int_add [of "2::rat" 52 j] by (simp add: algebra_simps)
  have hi: "2 ^ 53 * (2::rat) powi j = 2 powi (j + 52 + 1)"
    using power_int_add [of "2::rat" 53 j] by (simp add: algebra_simps)
  have "(of_int (2 ^ 52) :: rat) \<le> of_int m" using assms(1) by (simp only: of_int_le_iff)
  then have "2 ^ 52 * (2::rat) powi j \<le> ?x" using u by simp
  then have 1: "2 powi (j + 52) \<le> ?x" unfolding lo .
  have "(of_int m :: rat) < of_int (2 ^ 53)" using assms(2) by (simp only: of_int_less_iff)
  then have "?x < 2 ^ 53 * (2::rat) powi j" using u by simp
  then have 2: "?x < 2 powi (j + 52 + 1)" unfolding hi .
  have e: "expo ?x = j + 52" by (rule expo_unique [OF assms(3) 1 2])
  have "?x / 2 powi j = of_int m" using u by simp
  then have "round_even (?x / 2 powi j) = m" by (simp only: round_even_of_int)
  then show ?thesis unfolding double_pos_eq e by simp
qed

lemma double_pos_idem:
  assumes "1 \<le> x"
  shows "double_pos (double_pos x) = double_pos x"
proof -
  let ?j = "expo x - 52"
  let ?m = "round_even (x / 2 powi ?j)"
  note m = mantissa_bounds [OF assms]
  have v: "double_pos x = of_int ?m * 2 powi ?j" by (rule double_pos_eq)
  have ge: "1 \<le> of_int ?m * (2::rat) powi ?j"
    using double_pos_ge_1 [OF assms] unfolding v .
  show ?thesis
  proof (cases "?m < 2 ^ 53")
    case True
    show ?thesis unfolding v by (rule double_pos_representable [OF m(1) True ge])
  next
    case False
    then have top: "?m = 2 ^ 53" using m(2) by simp
    have "of_int ?m * (2::rat) powi ?j = of_int (2 ^ 52) * 2 powi (?j + 1)"
      unfolding top using power_int_add_1 [of "2::rat" ?j] by simp
    moreover have "double_pos (of_int (2 ^ 52) * 2 powi (?j + 1)) =
        of_int (2 ^ 52) * (2::rat) powi (?j + 1)"
      by (rule double_pos_representable) (use ge calculation in simp_all)
    ultimately show ?thesis unfolding v by simp
  qed
qed

subsection \<open>The nearest double of 0 and of numbers from 1\<close>

lemma double_0: "double 0 = 0"
  by (simp add: double_def)

lemma double_ge_1: "1 \<le> x \<Longrightarrow> double x = double_pos x"
  by (simp add: double_def)

lemma double_of_nat:
  assumes "n < 2 ^ 53"
  shows "double (of_nat n) = of_nat n"
proof (cases "n = 0")
  case True
  then show ?thesis by (simp add: double_0)
next
  case False
  have "int n < 2 ^ 53" using assms by (metis of_nat_less_iff of_nat_numeral of_nat_power)
  with False have "double_pos (of_int (int n)) = of_int (int n)"
    by (intro double_pos_of_int) simp_all
  moreover have "(1::rat) \<le> of_nat n" using False by simp
  ultimately show ?thesis by (simp add: double_ge_1)
qed

lemma double_idem: "x = 0 \<or> 1 \<le> x \<Longrightarrow> double (double x) = double x"
  using double_pos_ge_1 [of x] by (auto simp: double_0 double_ge_1 double_pos_idem)

lemma double_mono:
  assumes "x = 0 \<or> 1 \<le> x" "y = 0 \<or> 1 \<le> y" "x \<le> y"
  shows "double x \<le> double y"
proof (cases "x = 0")
  case True
  show ?thesis
  proof (cases "y = 0")
    case True
    with \<open>x = 0\<close> show ?thesis by simp
  next
    case False
    then have "1 \<le> y" using assms(2) by simp
    then have "1 \<le> double y" using double_pos_ge_1 [of y] by (simp add: double_ge_1)
    with \<open>x = 0\<close> show ?thesis by (simp add: double_0)
  qed
next
  case False
  then have x: "1 \<le> x" using assms(1) by simp
  then have y: "1 \<le> y" using assms(3) by simp
  show ?thesis using double_pos_mono [OF x assms(3)] x y by (simp add: double_ge_1)
qed

lemma double_nonneg: "x = 0 \<or> 1 \<le> x \<Longrightarrow> 0 \<le> double x"
  using double_pos_ge_1 [of x] by (auto simp: double_0 double_ge_1)

subsection \<open>The samples of linspace\<close>

lemma linspace_int_zero: "linspace_int start stop 0 = Inr []"
  by (simp add: linspace_int_def)

lemma linspace_int_one_from_zero: "linspace_int 0 stop 1 = Inr [0]"
  by (simp add: linspace_int_def double_0)

lemma nat_times_ge_1:
  fixes s :: rat
  assumes "1 \<le> s"
  shows "of_nat k * s = 0 \<or> 1 \<le> of_nat k * s"
proof (cases "k = 0")
  case True
  then show ?thesis by simp
next
  case False
  then have "(1::rat) \<le> of_nat k" by simp
  then have "1 * 1 \<le> of_nat k * s" using assms by (intro mult_mono) simp_all
  then show ?thesis by simp
qed

lemma linspace_int_samples:
  assumes "2 \<le> num" "num \<le> int d + 1" "d < 2 ^ 53"
  shows "linspace_int 0 (int d) num =
           Inr ((map (\<lambda>k. \<lfloor>double (of_nat k * double (of_nat d / (of_int num - 1)))\<rfloor>)
                  [0..<nat num])[nat num - 1 := int d])"
proof -
  note dd = double_of_nat [OF assms(3)]
  have q: "(1::rat) \<le> of_nat d / (of_int num - 1)"
  proof -
    have "(of_int (num - 1) :: rat) \<le> of_int (int d)"
      using assms(2) by (simp only: of_int_le_iff)
    moreover have "(0::rat) < of_int num - 1" using assms(1) by simp
    ultimately show ?thesis by (simp add: pos_le_divide_eq)
  qed
  then have s: "1 \<le> double (of_nat d / (of_int num - 1))"
    using double_pos_ge_1 by (simp add: double_ge_1)
  have idem: "double (double (of_nat k * double (of_nat d / (of_int num - 1)))) =
      double (of_nat k * double (of_nat d / (of_int num - 1)))" for k
    by (rule double_idem) (rule nat_times_ge_1 [OF s])
  show ?thesis
    using assms(1) by (simp add: linspace_int_def Let_def double_0 dd idem map_update comp_def)
qed

lemma linspace_int_sample_indices:
  assumes "2 \<le> m" "m < n" "n \<le> 2 ^ 53"
  shows "linspace_int 0 (int n - 1) (int m) = Inr (map int (sample_indices n m))"
proof -
  have d: "int n - 1 = int (n - 1)" using assms by simp
  have lt: "n - 1 < 2 ^ 53" using assms by simp
  have q: "(1::rat) \<le> of_nat (n - 1) / of_nat (m - 1)"
  proof -
    have "(of_nat (m - 1) :: rat) \<le> of_nat (n - 1)"
      using assms by simp
    moreover have "(0::rat) < of_nat (m - 1)" using assms(1) by simp
    ultimately show ?thesis by (simp add: pos_le_divide_eq)
  qed
  then have s: "1 \<le> double (of_nat (n - 1) / of_nat (m - 1))"
    using double_pos_ge_1 by (simp add: double_ge_1)
  have nonneg: "0 \<le> double (of_nat k * double (of_nat (n - 1) / of_nat (m - 1)))" for k
    by (rule double_nonneg [OF nat_times_ge_1 [OF s, of k]])
  have m1: "(of_int (int m) :: rat) - 1 = of_nat (m - 1)" using assms(1) by (simp add: of_nat_diff)
  have "linspace_int 0 (int (n - 1)) (int m) =
      Inr ((map (\<lambda>k. \<lfloor>double (of_nat k * double (of_nat (n - 1) / of_nat (m - 1)))\<rfloor>)
                  [0..<m])[m - 1 := int (n - 1)])"
    using linspace_int_samples [of "int m" "n - 1"] assms lt by (simp add: m1)
  also have "\<dots> = Inr (map int (sample_indices n m))"
    by (simp add: sample_indices_def map_update comp_def nonneg del: One_nat_def)
  finally show ?thesis by (simp only: d)
qed


subsection \<open>The indices of the sampler\<close>

lemma sample_indices_length: "length (sample_indices n m) = m"
  by (simp add: sample_indices_def)

lemma sample_indices_nth:
  "k < m \<Longrightarrow> sample_indices n m ! k =
     (if k = m - 1 then n - 1
      else nat \<lfloor>double (of_nat k * double (of_nat (n - 1) / of_nat (m - 1)))\<rfloor>)"
  by (simp add: sample_indices_def nth_list_update del: One_nat_def)

lemma step_ge_1:
  assumes "2 \<le> m" "m < n"
  shows "(1::rat) \<le> of_nat (n - 1) / of_nat (m - 1)"
proof -
  have "(of_nat (m - 1) :: rat) \<le> of_nat (n - 1)" using assms by simp
  moreover have "(0::rat) < of_nat (m - 1)" using assms(1) by simp
  ultimately show ?thesis by (simp add: pos_le_divide_eq)
qed

lemma double_step_ge_1:
  assumes "2 \<le> m" "m < n"
  shows "1 \<le> double (of_nat (n - 1) / of_nat (m - 1))"
proof -
  note q = step_ge_1 [OF assms]
  show ?thesis unfolding double_ge_1 [OF q] by (rule double_pos_ge_1 [OF q])
qed

lemma sample_le_stop:
  assumes "2 \<le> m" "m < n" "n \<le> 2 ^ 53" "k < m - 1"
  shows "double (of_nat k * double (of_nat (n - 1) / of_nat (m - 1))) \<le> of_nat (n - 1)"
proof -
  define q :: rat where "q = of_nat (n - 1) / of_nat (m - 1)"
  define s where "s = double q"
  define v :: rat where "v = of_nat (m - 1)"
  define u :: rat where "u = 1 / 2 ^ 53"
  have q: "1 \<le> q" unfolding q_def by (rule step_ge_1 [OF assms(1,2)])
  have s_eq: "s = double_pos q" unfolding s_def using q by (rule double_ge_1)
  have s1: "1 \<le> s" unfolding s_eq by (rule double_pos_ge_1 [OF q])
  have s_up: "s \<le> q + q / 2 ^ 53" unfolding s_eq by (rule double_pos_error(1) [OF q])
  have v: "0 < v" unfolding v_def using assms(1) by simp
  have vq: "q * v = of_nat (n - 1)" unfolding q_def v_def using assms(1) by simp
  have "m - 1 \<le> 2 ^ 53" using assms by simp
  then have vb: "v \<le> 2 ^ 53" unfolding v_def
    by (metis of_nat_le_iff of_nat_numeral of_nat_power)
  have k: "(of_nat k :: rat) \<le> v - 1"
  proof -
    have "k + 1 \<le> m - 1" using assms(4) by simp
    then have "(of_nat (k + 1) :: rat) \<le> of_nat (m - 1)" by (simp only: of_nat_le_iff)
    then show ?thesis unfolding v_def by simp
  qed
  have k0: "(0::rat) \<le> of_nat k" by simp
  have v1: "0 \<le> v - 1" using k k0 by linarith
  have "of_nat k * s \<le> (v - 1) * s"
    using k s1 by (intro mult_right_mono) simp_all
  also have "\<dots> \<le> (v - 1) * (q + q * u)"
  proof (rule mult_left_mono [OF _ v1])
    show "s \<le> q + q * u" using s_up unfolding u_def by simp
  qed
  also have "\<dots> = q * ((v - 1) + (v - 1) * u)"
    by (simp add: algebra_simps)
  also have "\<dots> \<le> q * v"
  proof (rule mult_left_mono)
    show "(v - 1) + (v - 1) * u \<le> v" using vb unfolding u_def by simp
    show "0 \<le> q" using q by simp
  qed
  also have "\<dots> = of_nat (n - 1)" by (rule vq)
  finally have le: "of_nat k * s \<le> of_nat (n - 1)" .
  have "double (of_nat k * s) \<le> double (of_nat (n - 1))"
  proof (rule double_mono [OF nat_times_ge_1 [OF s1] _ le])
    show "(of_nat (n - 1) :: rat) = 0 \<or> 1 \<le> (of_nat (n - 1) :: rat)"
      using assms by simp
  qed
  also have "\<dots> = of_nat (n - 1)"
    by (rule double_of_nat) (use assms in simp)
  finally show ?thesis unfolding s_def q_def .
qed

lemma sample_indices_le:
  assumes "2 \<le> m" "m < n" "n \<le> 2 ^ 53" "k < m"
  shows "sample_indices n m ! k \<le> n - 1"
proof (cases "k = m - 1")
  case True
  then show ?thesis using assms(4) by (simp add: sample_indices_nth del: One_nat_def)
next
  case False
  then have k: "k < m - 1" using assms(4) by simp
  have "\<lfloor>double (of_nat k * double (of_nat (n - 1) / of_nat (m - 1)))\<rfloor> \<le> int (n - 1)"
    using sample_le_stop [OF assms(1,2,3) k] by (simp add: floor_le_iff)
  then show ?thesis
    using False assms(4) by (simp add: sample_indices_nth del: One_nat_def)
qed

lemma sample_indices_mono:
  assumes "2 \<le> m" "m < n" "n \<le> 2 ^ 53" "i \<le> j" "j < m"
  shows "sample_indices n m ! i \<le> sample_indices n m ! j"
proof (cases "j = m - 1")
  case True
  have "sample_indices n m ! i \<le> n - 1"
    using sample_indices_le [OF assms(1,2,3)] assms(4,5) by simp
  moreover have "sample_indices n m ! j = n - 1"
    using True assms(5) by (simp add: sample_indices_nth del: One_nat_def)
  ultimately show ?thesis by simp
next
  case False
  then have j: "j \<noteq> m - 1" and i: "i \<noteq> m - 1" "i < m"
    using assms(4,5) by simp_all
  let ?s = "double (of_nat (n - 1) / of_nat (m - 1))"
  have s1: "1 \<le> ?s" by (rule double_step_ge_1 [OF assms(1,2)])
  have "of_nat i * ?s \<le> of_nat j * ?s"
    using assms(4) s1 by (intro mult_right_mono) simp_all
  then have "double (of_nat i * ?s) \<le> double (of_nat j * ?s)"
    by (rule double_mono [OF nat_times_ge_1 [OF s1] nat_times_ge_1 [OF s1]])
  then have "nat \<lfloor>double (of_nat i * ?s)\<rfloor> \<le> nat \<lfloor>double (of_nat j * ?s)\<rfloor>"
    by (intro nat_mono floor_mono)
  then show ?thesis
    using i j assms(5) by (simp add: sample_indices_nth del: One_nat_def)
qed

lemma sample_indices_sorted:
  assumes "2 \<le> m" "m < n" "n \<le> 2 ^ 53"
  shows "sorted (sample_indices n m)"
  unfolding sorted_iff_nth_mono
  using sample_indices_mono [OF assms] by (simp add: sample_indices_length)

lemma sample_indices_in_range:
  assumes "2 \<le> m" "m < n" "n \<le> 2 ^ 53"
  shows "list_all (\<lambda>i. i < n) (sample_indices n m)"
proof -
  have "sample_indices n m ! k < n" if "k < m" for k
    using sample_indices_le [OF assms that] assms by simp
  then show ?thesis
    by (simp add: list_all_length sample_indices_length)
qed

lemma sample_indices_first:
  assumes "2 \<le> m"
  shows "sample_indices n m ! 0 = 0"
  using assms by (simp add: sample_indices_nth double_0 del: One_nat_def)

lemma sample_indices_last:
  assumes "2 \<le> m"
  shows "sample_indices n m ! (m - 1) = n - 1"
  using assms by (simp add: sample_indices_nth del: One_nat_def)


subsection \<open>Closeness to the evenly spaced indices\<close>

lemma two_roundings:
  assumes "1 \<le> q"
  shows "double (of_nat k * double q) \<le> of_nat k * q + 3 * (of_nat k * q) / 2 ^ 53"
    and "of_nat k * q - 2 * (of_nat k * q) / 2 ^ 53 \<le> double (of_nat k * double q)"
proof -
  define t :: rat where "t = of_nat k * q"
  define ks where "ks = of_nat k * double q"
  define c where "c = double ks"
  have t0: "0 \<le> t" unfolding t_def using assms by simp
  have both: "c \<le> t + 3 * t / 2 ^ 53 \<and> t - 2 * t / 2 ^ 53 \<le> c"
  proof (cases "k = 0")
    case True
    then show ?thesis by (simp add: c_def ks_def t_def double_0)
  next
    case False
    have s_eq: "double q = double_pos q" using assms by (rule double_ge_1)
    have s1: "1 \<le> double q" unfolding s_eq by (rule double_pos_ge_1 [OF assms])
    have k0: "(0::rat) \<le> of_nat k" by simp
    have "of_nat k * double q \<le> of_nat k * (q + q / 2 ^ 53)"
      using double_pos_error(1) [OF assms] k0 unfolding s_eq by (rule mult_left_mono)
    then have up: "ks \<le> t + t / 2 ^ 53"
      unfolding ks_def t_def by (simp add: algebra_simps)
    have "of_nat k * (q - q / 2 ^ 53) \<le> of_nat k * double q"
      using double_pos_error(2) [OF assms] k0 unfolding s_eq by (rule mult_left_mono)
    then have lo: "t - t / 2 ^ 53 \<le> ks"
      unfolding ks_def t_def by (simp add: algebra_simps)
    have ks1: "1 \<le> ks"
      using nat_times_ge_1 [OF s1, of k] False s1 unfolding ks_def by auto
    have c_eq: "c = double_pos ks" unfolding c_def using ks1 by (rule double_ge_1)
    have cu: "c \<le> ks + ks / 2 ^ 53" unfolding c_eq by (rule double_pos_error(1) [OF ks1])
    have cl: "ks - ks / 2 ^ 53 \<le> c" unfolding c_eq by (rule double_pos_error(2) [OF ks1])
    from up lo cu cl t0 show ?thesis by simp
  qed
  from both show "double (of_nat k * double q) \<le> of_nat k * q + 3 * (of_nat k * q) / 2 ^ 53"
    unfolding c_def ks_def t_def by simp
  from both show "of_nat k * q - 2 * (of_nat k * q) / 2 ^ 53 \<le> double (of_nat k * double q)"
    unfolding c_def ks_def t_def by simp
qed

lemma evenly_spaced_nth: "k < m \<Longrightarrow> evenly_spaced n m ! k = (k * (n - 1)) div (m - 1)"
  by (simp add: evenly_spaced_def)

lemma sample_indices_near_even:
  assumes "2 \<le> m" "m < n" "n * m \<le> 2 ^ 51" "k < m"
  shows "sample_indices n m ! k \<le> evenly_spaced n m ! k"
    and "evenly_spaced n m ! k \<le> sample_indices n m ! k + 1"
proof -
  define d where "d = n - 1"
  define w where "w = m - 1"
  define e where "e = (k * d) div w"
  have w0: "0 < w" unfolding w_def using assms(1) by simp
  have ev: "evenly_spaced n m ! k = e"
    unfolding e_def d_def w_def by (rule evenly_spaced_nth [OF assms(4)])
  have both: "sample_indices n m ! k \<le> e \<and> e \<le> sample_indices n m ! k + 1"
  proof (cases "k = m - 1")
    case True
    have "e = d" unfolding e_def using True w0 by (simp add: w_def)
    moreover have "sample_indices n m ! k = d"
      using True assms(4) unfolding d_def by (simp add: sample_indices_nth del: One_nat_def)
    ultimately show ?thesis by simp
  next
    case False
    define q :: rat where "q = of_nat d / of_nat w"
    define t where "t = of_nat k * q"
    define c where "c = double (of_nat k * double q)"
    define v :: rat where "v = of_nat w"
    define K :: rat where "K = of_nat (k * d)"
    have q1: "1 \<le> q" unfolding q_def d_def w_def by (rule step_ge_1 [OF assms(1,2)])
    have v0: "0 < v" unfolding v_def using w0 by simp
    have v1: "1 \<le> v" unfolding v_def using w0 by simp
    have tv: "t * v = K" unfolding t_def q_def v_def K_def using w0 by simp
    have "k * d \<le> m * n"
      using assms(4) unfolding d_def by (intro mult_le_mono) simp_all
    then have "k * d \<le> 2 ^ 51" using assms(3) by (simp add: mult.commute)
    then have Kb: "K \<le> 2 ^ 51" unfolding K_def
      by (metis of_nat_le_iff of_nat_numeral of_nat_power)
    have K0: "0 \<le> K" unfolding K_def by simp
    have dm: "k * d = e * w + (k * d) mod w" unfolding e_def by simp
    have md: "(k * d) mod w < w" using w0 by simp
    from dm md have nat_hi: "k * d + 1 \<le> e * w + w" by linarith
    from dm have nat_lo: "e * w \<le> k * d" by linarith
    have Khi: "K + 1 \<le> of_nat e * v + v"
    proof -
      have "(of_nat (k * d + 1) :: rat) \<le> of_nat (e * w + w)"
        using nat_hi by (simp only: of_nat_le_iff)
      then show ?thesis unfolding K_def v_def by simp
    qed
    have Klo: "of_nat e * v \<le> K"
    proof -
      have "(of_nat (e * w) :: rat) \<le> of_nat (k * d)"
        using nat_lo by (simp only: of_nat_le_iff)
      then show ?thesis unfolding K_def v_def by simp
    qed
    note r = two_roundings [OF q1, of k]
    have cu: "c \<le> t + 3 * t / 2 ^ 53" unfolding c_def t_def by (rule r(1))
    have cl: "t - 2 * t / 2 ^ 53 \<le> c" unfolding c_def t_def by (rule r(2))
    have "c * v \<le> (t + 3 * t / 2 ^ 53) * v"
      using cu v0 by (simp only: mult_le_cancel_right_pos)
    also have "\<dots> = K + 3 * K / 2 ^ 53" unfolding tv [symmetric] by (simp add: algebra_simps)
    also have "\<dots> < K + 1" using Kb by simp
    also have "\<dots> \<le> of_nat (e + 1) * v" using Khi by (simp add: algebra_simps)
    finally have "c < of_nat (e + 1)" using v0 by (simp only: mult_less_cancel_right_pos)
    then have "c < of_int (int (e + 1))" by simp
    then have fl_hi: "\<lfloor>c\<rfloor> < int (e + 1)" by (simp only: floor_less_iff)
    have t_le_K: "t \<le> K"
    proof -
      have "t * 1 \<le> t * v" using v1 q1 unfolding t_def by (intro mult_left_mono) simp_all
      then show ?thesis using tv by simp
    qed
    have t_ge_e: "of_nat e \<le> t"
    proof -
      have "of_nat e * v \<le> t * v" using Klo tv by simp
      then show ?thesis using v0 by (simp only: mult_le_cancel_right_pos)
    qed
    have "of_nat e - 1 \<le> t - 2 * t / 2 ^ 53" using t_ge_e t_le_K Kb by simp
    then have "of_int (int e - 1) \<le> c" using cl by simp
    then have fl_lo: "int e - 1 \<le> \<lfloor>c\<rfloor>" by (simp only: le_floor_iff)
    have idx: "sample_indices n m ! k = nat \<lfloor>c\<rfloor>"
      using False assms(4) unfolding c_def q_def d_def w_def
      by (simp add: sample_indices_nth del: One_nat_def)
    from fl_hi fl_lo show ?thesis unfolding idx by linarith
  qed
  from both ev show "sample_indices n m ! k \<le> evenly_spaced n m ! k"
    and "evenly_spaced n m ! k \<le> sample_indices n m ! k + 1" by simp_all
qed


subsection \<open>The sampler\<close>

lemma list_items_in_range:
  "list_all (\<lambda>i. 0 \<le> i \<and> i < int (length xs)) idx \<Longrightarrow>
     list_items xs idx = Inr (map (\<lambda>i. xs ! nat i) idx)"
  by (induction idx) (simp_all add: list_item_def)

lemma get_sample_points_sampled:
  assumes "2 \<le> max_points" "max_points < int (length points)" "length points \<le> 2 ^ 53"
  shows "get_sample_points points max_points =
           Inr (map (\<lambda>i. points ! i) (sample_indices (length points) (nat max_points)))"
proof -
  let ?idx = "sample_indices (length points) (nat max_points)"
  have m: "2 \<le> nat max_points" and n: "nat max_points < length points"
    using assms by simp_all
  have lin: "linspace_int 0 (int (length points) - 1) max_points = Inr (map int ?idx)"
    using linspace_int_sample_indices [OF m n assms(3)] assms(1) by simp
  have "list_all (\<lambda>i. 0 \<le> i \<and> i < int (length points)) (map int ?idx)"
    using sample_indices_in_range [OF m n assms(3)] by (simp add: list_all_iff)
  then have "list_items points (map int ?idx) = Inr (map (\<lambda>i. points ! i) ?idx)"
    by (simp add: list_items_in_range comp_def)
  then show ?thesis
    using assms by (simp add: get_sample_points_def lin)
qed

lemma get_sample_points_one:
  "1 < length points \<Longrightarrow> get_sample_points points 1 = Inr [points ! 0]"
  by (auto simp: get_sample_points_def linspace_int_one_from_zero list_item_def)

lemma get_sample_points_zero:
  "points \<noteq> [] \<Longrightarrow> get_sample_points points 0 = Inr []"
  by (simp add: get_sample_points_def linspace_int_zero)

text \<open>
  C2, as amended. A list no longer than \<open>max_points\<close> is returned unchanged. A longer
  list of at most \<open>2 ^ 53\<close> points, with \<open>max_points\<close> at least 2, gives exactly
  \<open>max_points\<close> points, those at the indices that linspace computes in double
  precision. The first index is 0 and the last is the last index of the list, so the
  output begins with the first point and ends with the last point; the indices never
  decrease and all lie within the list. When the length of the list times
  \<open>max_points\<close> is at most \<open>2 ^ 51\<close>, each index is the evenly spaced index, the
  \<open>k\<close>-th of \<open>max_points - 1\<close> equal steps rounded down, or one below it. With
  \<open>max_points = 1\<close> only the first point is returned, with \<open>max_points = 0\<close> the
  empty list, and a negative \<open>max_points\<close> raises \<^verbatim>\<open>ValueError\<close>. The result is a
  function of the two arguments.
\<close>

theorem get_sample_points_amended:
  "(int (length points) \<le> max_points \<longrightarrow> get_sample_points points max_points = Inr points)
   \<and> (2 \<le> max_points \<and> max_points < int (length points) \<and> length points \<le> 2 ^ 53 \<longrightarrow>
        (let idx = sample_indices (length points) (nat max_points);
             out = map (\<lambda>i. points ! i) idx
         in linspace_int 0 (int (length points) - 1) max_points = Inr (map int idx)
            \<and> get_sample_points points max_points = Inr out
            \<and> length out = nat max_points
            \<and> hd out = hd points
            \<and> last out = last points
            \<and> hd idx = 0
            \<and> last idx = length points - 1
            \<and> sorted idx
            \<and> list_all (\<lambda>i. i < length points) idx
            \<and> (length points * nat max_points \<le> 2 ^ 51 \<longrightarrow>
                 list_all (\<lambda>k. idx ! k \<le> evenly_spaced (length points) (nat max_points) ! k
                             \<and> evenly_spaced (length points) (nat max_points) ! k \<le> idx ! k + 1)
                   [0..<nat max_points])))
   \<and> (max_points = 1 \<and> 1 < length points \<longrightarrow>
        get_sample_points points max_points = Inr [hd points])
   \<and> (max_points = 0 \<and> points \<noteq> [] \<longrightarrow> get_sample_points points max_points = Inr [])
   \<and> (max_points < 0 \<longrightarrow> get_sample_points points max_points = Inl ValueError)"
proof -
  have sampled: "2 \<le> max_points \<and> max_points < int (length points) \<and> length points \<le> 2 ^ 53 \<longrightarrow>
        (let idx = sample_indices (length points) (nat max_points);
             out = map (\<lambda>i. points ! i) idx
         in linspace_int 0 (int (length points) - 1) max_points = Inr (map int idx)
            \<and> get_sample_points points max_points = Inr out
            \<and> length out = nat max_points
            \<and> hd out = hd points
            \<and> last out = last points
            \<and> hd idx = 0
            \<and> last idx = length points - 1
            \<and> sorted idx
            \<and> list_all (\<lambda>i. i < length points) idx
            \<and> (length points * nat max_points \<le> 2 ^ 51 \<longrightarrow>
                 list_all (\<lambda>k. idx ! k \<le> evenly_spaced (length points) (nat max_points) ! k
                             \<and> evenly_spaced (length points) (nat max_points) ! k \<le> idx ! k + 1)
                   [0..<nat max_points]))"
  proof
    assume a: "2 \<le> max_points \<and> max_points < int (length points) \<and> length points \<le> 2 ^ 53"
    let ?n = "length points"
    let ?m = "nat max_points"
    let ?idx = "sample_indices ?n ?m"
    let ?out = "map (\<lambda>i. points ! i) ?idx"
    have m: "2 \<le> ?m" and n: "?m < ?n" and b: "?n \<le> 2 ^ 53" using a by auto
    have ne: "?idx \<noteq> []" "points \<noteq> []"
      using m n sample_indices_length [of ?n ?m] by auto
    have lin: "linspace_int 0 (int ?n - 1) max_points = Inr (map int ?idx)"
      using linspace_int_sample_indices [OF m n b] a by simp
    have res: "get_sample_points points max_points = Inr ?out"
      using a by (simp add: get_sample_points_sampled)
    have hd_idx: "hd ?idx = 0"
      using sample_indices_first [OF m, of ?n] by (simp add: hd_conv_nth ne)
    have last_idx: "last ?idx = ?n - 1"
      using sample_indices_last [OF m, of ?n]
      by (simp add: last_conv_nth ne sample_indices_length)
    have hd_out: "hd ?out = hd points"
      using ne hd_idx by (simp add: hd_map hd_conv_nth)
    have last_out: "last ?out = last points"
      using ne last_idx by (simp add: last_map last_conv_nth)
    have near: "?n * ?m \<le> 2 ^ 51 \<longrightarrow>
        list_all (\<lambda>k. ?idx ! k \<le> evenly_spaced ?n ?m ! k
                     \<and> evenly_spaced ?n ?m ! k \<le> ?idx ! k + 1) [0..<?m]"
    proof
      assume p: "?n * ?m \<le> 2 ^ 51"
      show "list_all (\<lambda>k. ?idx ! k \<le> evenly_spaced ?n ?m ! k
                     \<and> evenly_spaced ?n ?m ! k \<le> ?idx ! k + 1) [0..<?m]"
        using sample_indices_near_even [OF m n p] by (simp add: list_all_iff)
    qed
    from lin res hd_idx last_idx hd_out last_out near sample_indices_sorted [OF m n b]
      sample_indices_in_range [OF m n b]
    show "(let idx = ?idx; out = map (\<lambda>i. points ! i) idx
         in linspace_int 0 (int (length points) - 1) max_points = Inr (map int idx)
            \<and> get_sample_points points max_points = Inr out
            \<and> length out = nat max_points
            \<and> hd out = hd points
            \<and> last out = last points
            \<and> hd idx = 0
            \<and> last idx = length points - 1
            \<and> sorted idx
            \<and> list_all (\<lambda>i. i < length points) idx
            \<and> (length points * nat max_points \<le> 2 ^ 51 \<longrightarrow>
                 list_all (\<lambda>k. idx ! k \<le> evenly_spaced (length points) (nat max_points) ! k
                             \<and> evenly_spaced (length points) (nat max_points) ! k \<le> idx ! k + 1)
                   [0..<nat max_points]))"
      by (simp add: Let_def sample_indices_length)
  qed
  have one: "max_points = 1 \<and> 1 < length points \<longrightarrow>
        get_sample_points points max_points = Inr [hd points]"
    by (cases points) (auto simp: get_sample_points_one)
  from sampled one get_sample_points_unchanged [of points max_points]
    get_sample_points_zero [of points] get_sample_points_negative [of max_points points]
  show ?thesis by blast
qed

lemma double_2: "double 2 = 2"
  using double_of_nat [of 2] by simp

lemma sample_indices_5_3: "sample_indices 5 3 = [0, 2, 4]"
  by (simp add: sample_indices_def double_0 double_2 upt_rec)

text \<open>
  Where rounding shows: for 31 points and 23 samples the step is the double nearest to
  \<open>30 / 22\<close>, the sample of index 11 is just below 15, and the index read is 14, one
  less than the evenly spaced index 15.
\<close>

lemma sample_indices_31_23_at_11:
  "sample_indices 31 23 ! 11 = 14 \<and> evenly_spaced 31 23 ! 11 = 15"
proof -
  have "\<lfloor>double (11 * double (30 / 22))\<rfloor> = 14" by code_simp
  then show ?thesis
    by (simp add: sample_indices_nth evenly_spaced_def)
qed

theorem get_sample_points_amended_witness:
  "(2::int) \<le> 3
   \<and> (3::int) < int (length [10, 20, 30, 40, 50 :: nat])
   \<and> length [10, 20, 30, 40, 50 :: nat] \<le> 2 ^ 53
   \<and> get_sample_points [10, 20, 30, 40, 50 :: nat] 3 = Inr [10, 30, 50]
   \<and> (2::int) \<le> 23
   \<and> (23::int) < int (length [0, 1, 2, 3, 4, 5, 6, 7, 8, 9, 10, 11, 12, 13, 14, 15, 16, 17, 18, 19, 20, 21,
            22, 23, 24, 25, 26, 27, 28, 29, 30 :: nat])
   \<and> length [0, 1, 2, 3, 4, 5, 6, 7, 8, 9, 10, 11, 12, 13, 14, 15, 16, 17, 18, 19, 20, 21,
            22, 23, 24, 25, 26, 27, 28, 29, 30 :: nat] \<le> 2 ^ 53
   \<and> (case get_sample_points [0, 1, 2, 3, 4, 5, 6, 7, 8, 9, 10, 11, 12, 13, 14, 15, 16, 17, 18, 19, 20, 21,
            22, 23, 24, 25, 26, 27, 28, 29, 30 :: nat] 23 of
         Inl _ \<Rightarrow> False
       | Inr out \<Rightarrow> length out = 23 \<and> out ! 0 = 0 \<and> out ! 11 = 14 \<and> out ! 22 = 30)
   \<and> int (length [10, 20, 30 :: nat]) \<le> 3
   \<and> get_sample_points [10, 20, 30 :: nat] 3 = Inr [10, 20, 30]
   \<and> (1::nat) < length [10, 20, 30 :: nat]
   \<and> get_sample_points [10, 20, 30 :: nat] 1 = Inr [10]
   \<and> [10, 20, 30 :: nat] \<noteq> []
   \<and> get_sample_points [10, 20, 30 :: nat] 0 = Inr []
   \<and> (- 1 :: int) < 0
   \<and> get_sample_points [10, 20, 30 :: nat] (- 1) = Inl ValueError"
proof -
  let ?pts = "[10, 20, 30, 40, 50 :: nat]"
  have h: "(2::int) \<le> 3 \<and> (3::int) < int (length ?pts) \<and> length ?pts \<le> 2 ^ 53"
    by simp
  have len: "length ?pts = 5" by simp
  from get_sample_points_amended [of ?pts 3] h
  have "get_sample_points ?pts 3 = Inr (map (\<lambda>i. ?pts ! i) (sample_indices 5 3))"
    unfolding Let_def len by simp
  then have a5: "get_sample_points ?pts 3 = Inr [10, 30, 50]"
    by (simp add: sample_indices_5_3)
  let ?big = "[0, 1, 2, 3, 4, 5, 6, 7, 8, 9, 10, 11, 12, 13, 14, 15, 16, 17, 18, 19, 20, 21,
            22, 23, 24, 25, 26, 27, 28, 29, 30 :: nat]"
  have hb: "(2::int) \<le> 23 \<and> (23::int) < int (length ?big) \<and> length ?big \<le> 2 ^ 53"
    by simp
  have lenb: "length ?big = 31" by simp
  from get_sample_points_amended [of ?big 23] hb
  have res: "get_sample_points ?big 23 = Inr (map (\<lambda>i. ?big ! i) (sample_indices 31 23))"
    and ends: "hd (sample_indices 31 23) = 0" "last (sample_indices 31 23) = 30"
    unfolding Let_def lenb by simp_all
  have l: "length (sample_indices 31 23) = 23" by (rule sample_indices_length)
  have ne: "sample_indices 31 23 \<noteq> []" using l by auto
  have i0: "sample_indices 31 23 ! 0 = 0"
    using ends(1) hd_conv_nth [OF ne] by simp
  have i22: "sample_indices 31 23 ! 22 = 30"
    using ends(2) last_conv_nth [OF ne] l by simp
  have i11: "sample_indices 31 23 ! 11 = 14"
    using sample_indices_31_23_at_11 by simp
  have a31: "(case get_sample_points ?big 23 of
         Inl _ \<Rightarrow> False
       | Inr out \<Rightarrow> length out = 23 \<and> out ! 0 = 0 \<and> out ! 11 = 14 \<and> out ! 22 = 30)"
    unfolding res by (simp add: l i0 i11 i22)
  from get_sample_points_amended [of "[10, 20, 30 :: nat]" 3]
  have a3: "get_sample_points [10, 20, 30 :: nat] 3 = Inr [10, 20, 30]" by simp
  from get_sample_points_amended [of "[10, 20, 30 :: nat]" 1]
  have a1: "get_sample_points [10, 20, 30 :: nat] 1 = Inr [10]" by simp
  from get_sample_points_amended [of "[10, 20, 30 :: nat]" 0]
  have a0: "get_sample_points [10, 20, 30 :: nat] 0 = Inr []" by simp
  from get_sample_points_amended [of "[10, 20, 30 :: nat]" "- 1"]
  have am: "get_sample_points [10, 20, 30 :: nat] (- 1) = Inl ValueError" by simp
  from a5 a31 a3 a1 a0 am show ?thesis by simp
qed

text \<open>
  C2 as stated fails for \<open>max_points = 1\<close>: of two points only the first is returned,
  and the last point of the input is not in the output.
\<close>

theorem get_sample_points_one_drops_last:
  "get_sample_points [(48, 2), (49, 3 :: int)] 1 = Inr [(48 :: int, 2)]
   \<and> last [(48, 2), (49, 3 :: int)] \<notin> set [(48 :: int, 2)]"
  by (simp add: get_sample_points_def linspace_int_def list_item_def double_0)

section \<open>Properties of the pipeline\<close>

lemma collect_speed_data_trace:
  "snd (collect_speed_data w points limit_speed) = map (\<lambda>(la, lo). Speed_request la lo) points"
  by (simp add: collect_speed_data_eq)

lemma collect_speed_data_no_save:
  "list_all is_request (snd (collect_speed_data w points limit_speed))"
  by (simp add: collect_speed_data_trace list_all_iff is_request_def split: prod.splits)

lemma get_fuel_stations_trace:
  "snd (get_fuel_stations w box) = [Fuel_request (fuel_query box)]"
  by (simp add: get_fuel_stations_def Let_def)

lemma build_speed_map_trace:
  "snd (build_speed_map w points results limit_speed) = [] \<or>
   (\<exists>box. snd (build_speed_map w points results limit_speed) = [Fuel_request (fuel_query box)])"
  by (auto simp: build_speed_map_def get_fuel_stations_def Let_def
      split: sum.splits prod.splits)

lemma build_speed_map_no_save:
  "list_all is_request (snd (build_speed_map w points results limit_speed))"
  using build_speed_map_trace [of w points results limit_speed]
  by (auto simp: is_request_def)

lemma build_speed_map_empty:
  "build_speed_map w [] results limit_speed = (Inl IndexError, [])"
  by (simp add: build_speed_map_def first_item_def)

lemma build_speed_map_fuel_failure:
  assumes "get_bounding_box points = Inr box" "api_query w (fuel_query box) = Inl e"
  shows "build_speed_map w points results limit_speed = (Inl e, [Fuel_request (fuel_query box)])"
proof -
  have "points \<noteq> []"
    using assms(1) by (auto simp: get_bounding_box_def py_min_def)
  then obtain p ps where "points = p # ps" by (cases points) auto
  then show ?thesis
    using assms by (simp add: build_speed_map_def first_item_def get_fuel_stations_def Let_def)
qed

lemma collect_speed_data_empty: "collect_speed_data w [] limit_speed = ([], [])"
  by (simp add: collect_speed_data_def)

text \<open>
  C4, as amended. When the track file parses to zero points the loader returns the
  empty list and raises nothing. The run then ends with an exception that is not
  caught, before any request to the service and before any file is written: with
  \<open>max_points\<close> at least 0 it is the \<^verbatim>\<open>IndexError\<close> of \<^verbatim>\<open>points[0]\<close> in
  \<^verbatim>\<open>build_speed_map\<close>, with a negative \<open>max_points\<close> the \<^verbatim>\<open>ValueError\<close> of the
  sampler.
\<close>

theorem empty_track_aborts_before_network:
  "load_gpx_points w (file_arg a) = Inr [] \<Longrightarrow>
     main w a = (Inl (if 0 \<le> max_points_arg a then IndexError else ValueError), [])"
  by (simp add: main_def get_sample_points_unchanged get_sample_points_negative
      collect_speed_data_empty build_speed_map_empty)

theorem empty_track_aborts_before_network_witness:
  "load_gpx_points empty_world (file_arg demo_args) = Inr []
   \<and> main empty_world demo_args = (Inl IndexError, [])"
proof -
  have l: "load_gpx_points empty_world (file_arg demo_args) = Inr []"
    by (simp add: load_gpx_points_def empty_world_def)
  from empty_track_aborts_before_network [OF l] l show ?thesis
    by (simp add: demo_args_def)
qed

text \<open>
  C4 as stated fails: on a track file without points the loader succeeds with the
  empty list, the sampler and the collection loop succeed on it, and the exception
  that ends the run is an \<^verbatim>\<open>IndexError\<close> raised by \<^verbatim>\<open>build_speed_map\<close>, not an error of
  loading.
\<close>

theorem empty_track_error_not_from_loader:
  "load_gpx_points empty_world ''track.gpx'' = Inr []
   \<and> get_sample_points ([] :: (int \<times> int) list) 400 = Inr []
   \<and> collect_speed_data empty_world [] 110 = ([], [])
   \<and> build_speed_map empty_world [] [] 110 = (Inl IndexError, [])
   \<and> main empty_world demo_args = (Inl IndexError, [])"
  by (simp add: load_gpx_points_def empty_world_def get_sample_points_def
      collect_speed_data_def build_speed_map_def first_item_def main_def demo_args_def)

lemma main_run:
  assumes "load_gpx_points w (file_arg a) = Inr points"
    and "get_sample_points points (max_points_arg a) = Inr sampled"
  shows "main w a =
     (let (results, tr1) = collect_speed_data w sampled (limit_speed_arg a);
          (r, tr2) = build_speed_map w sampled results (limit_speed_arg a)
      in case r of
           Inl e \<Rightarrow> (Inl e, tr1 @ tr2)
         | Inr m \<Rightarrow>
             (Inr (), tr1 @ tr2 @ [File_saved (''speed_map_'' @ timestamp w @ ''.html'') m]))"
  using assms by (simp add: main_def Let_def split: prod.splits sum.splits)

lemma main_failed_no_save:
  "fst (main w a) = Inl e \<Longrightarrow> list_all is_request (snd (main w a))"
proof (cases "load_gpx_points w (file_arg a)")
  case (Inl e')
  then show ?thesis by (simp add: main_def)
next
  case (Inr points)
  note pts = this
  show "fst (main w a) = Inl e \<Longrightarrow> list_all is_request (snd (main w a))"
  proof (cases "get_sample_points points (max_points_arg a)")
    case (Inl e')
    then show ?thesis using pts by (simp add: main_def)
  next
    case (Inr sampled)
    obtain results tr1 where c: "collect_speed_data w sampled (limit_speed_arg a) = (results, tr1)"
      by (cases "collect_speed_data w sampled (limit_speed_arg a)")
    obtain r tr2 where b: "build_speed_map w sampled results (limit_speed_arg a) = (r, tr2)"
      by (cases "build_speed_map w sampled results (limit_speed_arg a)")
    have t1: "list_all is_request tr1"
      using collect_speed_data_no_save [of w sampled "limit_speed_arg a"] c by simp
    have t2: "list_all is_request tr2"
      using build_speed_map_no_save [of w sampled results "limit_speed_arg a"] b by simp
    assume "fst (main w a) = Inl e"
    then show ?thesis
      using t1 t2 by (simp add: main_run [OF pts Inr] c b split: sum.splits)
  qed
qed

lemma main_done_saved_last:
  "fst (main w a) = Inr () \<Longrightarrow>
     \<exists>tr name m. snd (main w a) = tr @ [File_saved name m] \<and> list_all is_request tr"
proof (cases "load_gpx_points w (file_arg a)")
  case (Inl e')
  then show "fst (main w a) = Inr () \<Longrightarrow> ?thesis" by (simp add: main_def)
next
  case (Inr points)
  note pts = this
  show "fst (main w a) = Inr () \<Longrightarrow> ?thesis"
  proof (cases "get_sample_points points (max_points_arg a)")
    case (Inl e')
    then show "fst (main w a) = Inr () \<Longrightarrow> ?thesis" using pts by (simp add: main_def)
  next
    case (Inr sampled)
    obtain results tr1 where c: "collect_speed_data w sampled (limit_speed_arg a) = (results, tr1)"
      by (cases "collect_speed_data w sampled (limit_speed_arg a)")
    obtain r tr2 where b: "build_speed_map w sampled results (limit_speed_arg a) = (r, tr2)"
      by (cases "build_speed_map w sampled results (limit_speed_arg a)")
    have t1: "list_all is_request tr1"
      using collect_speed_data_no_save [of w sampled "limit_speed_arg a"] c by simp
    have t2: "list_all is_request tr2"
      using build_speed_map_no_save [of w sampled results "limit_speed_arg a"] b by simp
    assume ok: "fst (main w a) = Inr ()"
    then obtain m where r: "r = Inr m"
      by (cases r) (simp_all add: main_run [OF pts Inr] c b)
    have "snd (main w a) = (tr1 @ tr2) @ [File_saved (''speed_map_'' @ timestamp w @ ''.html'') m]"
      by (simp add: main_run [OF pts Inr] c b r)
    moreover have "list_all is_request (tr1 @ tr2)"
      using t1 t2 by simp
    ultimately show ?thesis by blast
  qed
qed

text \<open>
  C7. A run that ends with an exception has written no file; a run that ends normally
  has written the file as its last effect, after every request. When the fuel station
  query raises, the exception is not caught: \<^verbatim>\<open>main\<close> ends with it, after the speed
  requests and the fuel station query, and no file is written. The write of the file
  is taken as one effect.
\<close>

theorem main_atomic:
  "(\<forall>e. fst (main w a) = Inl e \<longrightarrow> list_all is_request (snd (main w a)))
   \<and> (fst (main w a) = Inr () \<longrightarrow>
        (\<exists>tr name m. snd (main w a) = tr @ [File_saved name m] \<and> list_all is_request tr))
   \<and> (load_gpx_points w (file_arg a) = Inr points
        \<and> get_sample_points points (max_points_arg a) = Inr sampled
        \<and> get_bounding_box sampled = Inr box
        \<and> api_query w (fuel_query box) = Inl e \<longrightarrow>
          main w a = (Inl e, map (\<lambda>(la, lo). Speed_request la lo) sampled @
                              [Fuel_request (fuel_query box)]))"
proof (intro conjI allI impI)
  fix e assume "fst (main w a) = Inl e"
  then show "list_all is_request (snd (main w a))"
    by (rule main_failed_no_save)
next
  assume "fst (main w a) = Inr ()"
  then show "\<exists>tr name m. snd (main w a) = tr @ [File_saved name m] \<and> list_all is_request tr"
    by (rule main_done_saved_last)
next
  assume a: "load_gpx_points w (file_arg a) = Inr points
        \<and> get_sample_points points (max_points_arg a) = Inr sampled
        \<and> get_bounding_box sampled = Inr box
        \<and> api_query w (fuel_query box) = Inl e"
  then show "main w a = (Inl e, map (\<lambda>(la, lo). Speed_request la lo) sampled @
                              [Fuel_request (fuel_query box)])"
    by (simp add: main_def build_speed_map_fuel_failure collect_speed_data_eq)
qed

theorem main_atomic_witness:
  "load_gpx_points failing_world (file_arg demo_args) = Inr [(1, 2), (3, 4)]
   \<and> get_sample_points [(1::int, 2::int), (3, 4)] (max_points_arg demo_args) = Inr [(1, 2), (3, 4)]
   \<and> get_bounding_box [(1::int, 2::int), (3, 4)] = Inr (1, 2, 3, 4)
   \<and> api_query failing_world (fuel_query (1, 2, 3, 4)) = Inl OverpassException
   \<and> main failing_world demo_args =
        (Inl OverpassException,
         [Speed_request 1 2, Speed_request 3 4, Fuel_request (fuel_query (1, 2, 3, 4))])
   \<and> fst (main failing_world demo_args) = Inl OverpassException
   \<and> list_all is_request (snd (main failing_world demo_args))
   \<and> fst (main demo_world demo_args) = Inr ()
   \<and> (\<exists>tr name m. snd (main demo_world demo_args) = tr @ [File_saved name m]
         \<and> list_all is_request tr)"
proof -
  have l: "load_gpx_points failing_world (file_arg demo_args) = Inr [(1, 2), (3, 4)]"
    by (simp add: load_gpx_points_def failing_world_def demo_world_def)
  have s: "get_sample_points [(1::int, 2::int), (3, 4)] (max_points_arg demo_args) = Inr [(1, 2), (3, 4)]"
    by (simp add: get_sample_points_def demo_args_def)
  have b: "get_bounding_box [(1::int, 2::int), (3, 4)] = Inr (1, 2, 3, 4)"
    by (simp add: get_bounding_box_def py_min_def py_max_def)
  have q: "api_query failing_world (fuel_query (1, 2, 3, 4)) = Inl OverpassException"
    by (simp add: failing_world_def)
  note t = main_atomic [of failing_world demo_args "[(1, 2), (3, 4)]" "[(1, 2), (3, 4)]"
      "(1, 2, 3, 4)" OverpassException]
  from t l s b q have m: "main failing_world demo_args =
        (Inl OverpassException,
         [Speed_request 1 2, Speed_request 3 4, Fuel_request (fuel_query (1, 2, 3, 4))])"
    by simp
  then have f: "fst (main failing_world demo_args) = Inl OverpassException" by simp
  with t have r: "list_all is_request (snd (main failing_world demo_args))" by blast
  have l2: "load_gpx_points demo_world (file_arg demo_args) = Inr [(1, 2), (3, 4)]"
    by (simp add: load_gpx_points_def demo_world_def)
  have q2: "\<exists>nodes. api_query demo_world (fuel_query (1, 2, 3, 4)) = Inr nodes"
    by (simp add: demo_world_def overpass_service_def)
  have ok: "fst (main demo_world demo_args) = Inr ()"
    using q2 b by (auto simp: main_run [OF l2 s] build_speed_map_def first_item_def
        get_fuel_stations_def Let_def split: prod.splits sum.splits)
  with main_atomic [of demo_world demo_args] have
    "\<exists>tr name m. snd (main demo_world demo_args) = tr @ [File_saved name m]
         \<and> list_all is_request tr" by blast
  with l s b q m f r ok show ?thesis by blast
qed

section \<open>Properties of the fuel station locator\<close>

lemma stations_loop_eq: "stations_loop nodes stations = stations @ map station_of nodes"
  by (induction nodes arbitrary: stations) simp_all

lemma get_fuel_stations_ok:
  "api_query w (fuel_query box) = Inr nodes \<Longrightarrow>
     fst (get_fuel_stations w box) = Inr (map station_of nodes)"
  by (simp add: get_fuel_stations_def Let_def stations_loop_eq)

lemma selected_fuel_query:
  "selected (fuel_query box) node =
     (in_box box node \<and> map_of (node_tags node) ''amenity'' = Some ''fuel'' \<and>
      (map_of (node_tags node) ''fuel:octane_98'' \<noteq> None \<or>
       map_of (node_tags node) ''fuel:octane_95'' \<noteq> None))"
  by (auto simp: selected_def fuel_query_def passes_def)

lemma station_of_fields:
  "sp95 (station_of node) = (map_of (node_tags node) ''fuel:octane_95'' = Some ''yes'')"
  "sp98 (station_of node) = (map_of (node_tags node) ''fuel:octane_98'' = Some ''yes'')"
  "st_name (station_of node) =
     (case map_of (node_tags node) ''name'' of None \<Rightarrow> ''Station-service'' | Some n \<Rightarrow> n)"
  "st_lat (station_of node) = node_lat node"
  "st_lon (station_of node) = node_lon node"
  by (simp_all add: station_of_def Let_def)

lemma station_marker_color:
  "icon_color (station_marker s) = (if sp95 s \<and> sp98 s then ''green'' else ''orange'')"
  by (simp add: station_marker_def Let_def)

text \<open>
  C6, as amended. The locator returns one station per node that the service returns
  for its query, in the service's order. The query asks for the nodes within the
  bounding box that are tagged \<^verbatim>\<open>amenity=fuel\<close> and carry the key of at least one of
  the two grade tags, whatever its value. Each station has \<open>sp95\<close> and \<open>sp98\<close> true
  exactly when the grade tag has the value \<open>yes\<close>, the coordinates of its node, and
  the node's name or \<open>Station-service\<close> when it has none. The marker of a station is
  green if and only if both flags are true, and orange otherwise.
\<close>

theorem get_fuel_stations_amended:
  "(api_query w (fuel_query box) = Inr nodes \<longrightarrow>
      fst (get_fuel_stations w box) = Inr (map station_of nodes))
   \<and> fst (get_fuel_stations (w\<lparr>api_query := overpass_service db\<rparr>) box) =
       Inr (map station_of
         (filter (\<lambda>n. in_box box n \<and> map_of (node_tags n) ''amenity'' = Some ''fuel'' \<and>
                   (map_of (node_tags n) ''fuel:octane_98'' \<noteq> None \<or>
                    map_of (node_tags n) ''fuel:octane_95'' \<noteq> None)) db))
   \<and> sp95 (station_of node) = (map_of (node_tags node) ''fuel:octane_95'' = Some ''yes'')
   \<and> sp98 (station_of node) = (map_of (node_tags node) ''fuel:octane_98'' = Some ''yes'')
   \<and> st_name (station_of node) =
       (case map_of (node_tags node) ''name'' of None \<Rightarrow> ''Station-service'' | Some n \<Rightarrow> n)
   \<and> st_lat (station_of node) = node_lat node
   \<and> st_lon (station_of node) = node_lon node
   \<and> icon_color (station_marker s) = (if sp95 s \<and> sp98 s then ''green'' else ''orange'')"
proof -
  have svc: "fst (get_fuel_stations (w\<lparr>api_query := overpass_service db\<rparr>) box) =
       Inr (map station_of
         (filter (\<lambda>n. in_box box n \<and> map_of (node_tags n) ''amenity'' = Some ''fuel'' \<and>
                   (map_of (node_tags n) ''fuel:octane_98'' \<noteq> None \<or>
                    map_of (node_tags n) ''fuel:octane_95'' \<noteq> None)) db))"
  proof -
    have sel: "selected (fuel_query box) =
        (\<lambda>n. in_box box n \<and> map_of (node_tags n) ''amenity'' = Some ''fuel'' \<and>
                   (map_of (node_tags n) ''fuel:octane_98'' \<noteq> None \<or>
                    map_of (node_tags n) ''fuel:octane_95'' \<noteq> None))"
      by (rule ext) (rule selected_fuel_query)
    show ?thesis
      by (simp add: get_fuel_stations_def Let_def stations_loop_eq overpass_service_def sel)
  qed
  from svc get_fuel_stations_ok [of w box nodes] station_of_fields [of node]
    station_marker_color [of s]
  show ?thesis by blast
qed

theorem get_fuel_stations_amended_witness:
  "api_query demo_world (fuel_query (1, 2, 3, 4)) = Inr [demo_db ! 0, demo_db ! 1]
   \<and> fst (get_fuel_stations demo_world (1, 2, 3, 4)) =
       Inr [\<lparr>st_lat = 2, st_lon = 3, sp95 = True, sp98 = True, st_name = ''Relais''\<rparr>,
            \<lparr>st_lat = 1, st_lon = 2, sp95 = False, sp98 = False, st_name = ''Station-service''\<rparr>]
   \<and> icon_color (station_marker (station_of (demo_db ! 0))) = ''green''
   \<and> icon_color (station_marker (station_of (demo_db ! 1))) = ''orange''"
proof -
  have q: "api_query demo_world (fuel_query (1, 2, 3, 4)) = Inr [demo_db ! 0, demo_db ! 1]"
    by (simp add: demo_world_def overpass_service_def demo_db_def selected_fuel_query in_box_def)
  note t0 = get_fuel_stations_amended [of demo_world "(1, 2, 3, 4)" "[demo_db ! 0, demo_db ! 1]"
      demo_db "demo_db ! 0" "station_of (demo_db ! 0)"]
  note t1 = get_fuel_stations_amended [of demo_world "(1, 2, 3, 4)" "[demo_db ! 0, demo_db ! 1]"
      demo_db "demo_db ! 1" "station_of (demo_db ! 1)"]
  from t0 q have r: "fst (get_fuel_stations demo_world (1, 2, 3, 4)) =
      Inr (map station_of [demo_db ! 0, demo_db ! 1])" by blast
  have s0: "station_of (demo_db ! 0) =
      \<lparr>st_lat = 2, st_lon = 3, sp95 = True, sp98 = True, st_name = ''Relais''\<rparr>"
    by (simp add: station_of_def demo_db_def)
  have s1: "station_of (demo_db ! 1) =
      \<lparr>st_lat = 1, st_lon = 2, sp95 = False, sp98 = False, st_name = ''Station-service''\<rparr>"
    by (simp add: station_of_def demo_db_def)
  from t0 have "icon_color (station_marker (station_of (demo_db ! 0))) =
      (if sp95 (station_of (demo_db ! 0)) \<and> sp98 (station_of (demo_db ! 0))
       then ''green'' else ''orange'')" by blast
  then have c0: "icon_color (station_marker (station_of (demo_db ! 0))) = ''green''"
    unfolding s0 by simp
  from t1 have "icon_color (station_marker (station_of (demo_db ! 1))) =
      (if sp95 (station_of (demo_db ! 1)) \<and> sp98 (station_of (demo_db ! 1))
       then ''green'' else ''orange'')" by blast
  then have c1: "icon_color (station_marker (station_of (demo_db ! 1))) = ''orange''"
    unfolding s1 by simp
  from q r s0 s1 c0 c1 show ?thesis by simp
qed

text \<open>
  C6 as stated fails: a fuel node whose only grade tag is \<open>fuel:octane_95=no\<close> is
  selected by the query and becomes a station, with both flags false.
\<close>

theorem station_without_affirmative_grade:
  "fst (get_fuel_stations
         (demo_world\<lparr>api_query := overpass_service
            [\<lparr>node_lat = 1, node_lon = 2,
              node_tags = [(''amenity'', ''fuel''), (''fuel:octane_95'', ''no'')]\<rparr>]\<rparr>)
         (1, 2, 3, 4)) =
     Inr [\<lparr>st_lat = 1, st_lon = 2, sp95 = False, sp98 = False, st_name = ''Station-service''\<rparr>]"
  by (simp add: get_fuel_stations_def overpass_service_def selected_def fuel_query_def
      passes_def in_box_def station_of_def Let_def)

section \<open>Properties of the map renderer\<close>

lemma str_int_110: "str_int 110 = ''110''"
  by code_simp

lemma str_int_90: "str_int 90 = ''90''"
  by code_simp

lemma markers_loop_eq:
  "markers_loop limit_speed results cluster = cluster @ map (point_marker limit_speed) results"
  by (induction results arbitrary: cluster) simp_all

lemma point_marker_fields:
  "location (point_marker limit_speed pt) = (lat pt, lon pt)"
  "icon_color (point_marker limit_speed pt) =
     (case parse_speed (maxspeed pt) of
        None \<Rightarrow> ''gray''
      | Some v \<Rightarrow> if limit_speed \<le> v then ''red'' else ''blue'')"
  "popup (point_marker limit_speed pt) =
     (case parse_speed (maxspeed pt) of
        None \<Rightarrow> [Str ''Maxspeed: Unknown'']
      | Some v \<Rightarrow> [Str (''Maxspeed: '' @ str_int v @ '' km/h'')])"
  "icon_name (point_marker limit_speed pt) = None"
  by (simp_all add: point_marker_def Let_def split: option.splits)

lemma add_fuel_stations_children:
  "children (add_fuel_stations_to_map m stations) =
     children m @ map (\<lambda>s. Marker_child (station_marker s)) stations"
  by (induction stations arbitrary: m) simp_all

lemma build_speed_map_children:
  assumes "fst (build_speed_map w points results limit_speed) = Inr m"
  shows "\<exists>stations. children m =
      map (\<lambda>s. Marker_child (station_marker s)) stations @
      [Group_child (fast (draw_lines limit_speed results (new_layers limit_speed))),
       Group_child (slow (draw_lines limit_speed results (new_layers limit_speed))),
       Group_child (unknown (draw_lines limit_speed results (new_layers limit_speed))),
       Layer_control False,
       Legend_element limit_speed]"
  using assms
  by (auto simp: build_speed_map_def get_fuel_stations_def Let_def add_fuel_stations_children
      split: sum.splits prod.splits)

lemma station_marker_icon: "icon_name (station_marker s) = Some ''tint''"
  by (simp add: station_marker_def Let_def)

text \<open>
  C5, as amended. The marker loop builds one marker per observation, in order, at the
  observation's coordinates: red when the resolved speed is at least the threshold,
  blue when it is below, gray when it is unknown, with a popup that shows the resolved
  speed or \<open>Unknown\<close>. These markers go into the marker cluster, and the cluster is
  not added to the map: the children of the map that is returned are the markers of
  the fuel stations, the three layer groups, the layer control and the legend. None
  of them is a cluster or the marker of a point.
\<close>

theorem point_markers_built_not_added:
  "markers_loop limit_speed results [] = map (point_marker limit_speed) results
   \<and> location (point_marker limit_speed pt) = (lat pt, lon pt)
   \<and> icon_color (point_marker limit_speed pt) =
       (case parse_speed (maxspeed pt) of
          None \<Rightarrow> ''gray''
        | Some v \<Rightarrow> if limit_speed \<le> v then ''red'' else ''blue'')
   \<and> popup (point_marker limit_speed pt) =
       (case parse_speed (maxspeed pt) of
          None \<Rightarrow> [Str ''Maxspeed: Unknown'']
        | Some v \<Rightarrow> [Str (''Maxspeed: '' @ str_int v @ '' km/h'')])
   \<and> (fst (build_speed_map w points results limit_speed) = Inr m \<longrightarrow>
        (\<exists>stations. children m =
           map (\<lambda>s. Marker_child (station_marker s)) stations @
           [Group_child (fast (draw_lines limit_speed results (new_layers limit_speed))),
            Group_child (slow (draw_lines limit_speed results (new_layers limit_speed))),
            Group_child (unknown (draw_lines limit_speed results (new_layers limit_speed))),
            Layer_control False,
            Legend_element limit_speed])
        \<and> list_all (\<lambda>c. (\<forall>ms. c \<noteq> Cluster_child ms) \<and>
                          (\<forall>r. c \<noteq> Marker_child (point_marker limit_speed r))) (children m))"
proof -
  have on_map: "fst (build_speed_map w points results limit_speed) = Inr m \<longrightarrow>
        (\<exists>stations. children m =
           map (\<lambda>s. Marker_child (station_marker s)) stations @
           [Group_child (fast (draw_lines limit_speed results (new_layers limit_speed))),
            Group_child (slow (draw_lines limit_speed results (new_layers limit_speed))),
            Group_child (unknown (draw_lines limit_speed results (new_layers limit_speed))),
            Layer_control False,
            Legend_element limit_speed])
        \<and> list_all (\<lambda>c. (\<forall>ms. c \<noteq> Cluster_child ms) \<and>
                          (\<forall>r. c \<noteq> Marker_child (point_marker limit_speed r))) (children m)"
  proof
    assume ok: "fst (build_speed_map w points results limit_speed) = Inr m"
    from build_speed_map_children [OF ok] obtain stations where
      ch: "children m =
           map (\<lambda>s. Marker_child (station_marker s)) stations @
           [Group_child (fast (draw_lines limit_speed results (new_layers limit_speed))),
            Group_child (slow (draw_lines limit_speed results (new_layers limit_speed))),
            Group_child (unknown (draw_lines limit_speed results (new_layers limit_speed))),
            Layer_control False,
            Legend_element limit_speed]" by blast
    have differ: "station_marker s \<noteq> point_marker limit_speed r" for s :: "'a station" and r
    proof
      assume "station_marker s = point_marker limit_speed r"
      then have "icon_name (station_marker s) = icon_name (point_marker limit_speed r)" by simp
      then show False by (simp add: station_marker_icon point_marker_fields)
    qed
    have "list_all (\<lambda>c. (\<forall>ms. c \<noteq> Cluster_child ms) \<and>
                          (\<forall>r. c \<noteq> Marker_child (point_marker limit_speed r))) (children m)"
      unfolding ch by (auto simp: list_all_iff differ)
    with ch show "(\<exists>stations. children m =
           map (\<lambda>s. Marker_child (station_marker s)) stations @
           [Group_child (fast (draw_lines limit_speed results (new_layers limit_speed))),
            Group_child (slow (draw_lines limit_speed results (new_layers limit_speed))),
            Group_child (unknown (draw_lines limit_speed results (new_layers limit_speed))),
            Layer_control False,
            Legend_element limit_speed])
        \<and> list_all (\<lambda>c. (\<forall>ms. c \<noteq> Cluster_child ms) \<and>
                          (\<forall>r. c \<noteq> Marker_child (point_marker limit_speed r))) (children m)"
      by blast
  qed
  from on_map markers_loop_eq [of limit_speed results "[]"] point_marker_fields [of limit_speed pt]
  show ?thesis by simp
qed

lemma demo_build_ok:
  "\<exists>m. fst (build_speed_map demo_world [(1, 2), (3, 4)] results 110) = Inr m"
  by (simp add: build_speed_map_def first_item_def get_bounding_box_def py_min_def py_max_def
      get_fuel_stations_def demo_world_def overpass_service_def Let_def)

theorem point_markers_built_not_added_witness:
  "markers_loop 110
     [\<lparr>lat = 1 :: int, lon = 2, maxspeed = None\<rparr>,
      \<lparr>lat = 3, lon = 4, maxspeed = Some ''130''\<rparr>] [] =
     [point_marker 110 \<lparr>lat = 1, lon = 2, maxspeed = None\<rparr>,
      point_marker 110 \<lparr>lat = 3, lon = 4, maxspeed = Some ''130''\<rparr>]
   \<and> icon_color (point_marker 110 \<lparr>lat = 3 :: int, lon = 4, maxspeed = Some ''130''\<rparr>) = ''red''
   \<and> (\<exists>m. fst (build_speed_map demo_world [(1, 2), (3, 4)]
              [\<lparr>lat = 1, lon = 2, maxspeed = None\<rparr>,
               \<lparr>lat = 3, lon = 4, maxspeed = Some ''130''\<rparr>] 110) = Inr m
          \<and> list_all (\<lambda>c. (\<forall>ms. c \<noteq> Cluster_child ms) \<and>
                            (\<forall>r. c \<noteq> Marker_child (point_marker 110 r))) (children m))"
proof -
  let ?res = "[\<lparr>lat = 1 :: int, lon = 2, maxspeed = None\<rparr>,
               \<lparr>lat = 3, lon = 4, maxspeed = Some ''130''\<rparr>]"
  let ?pt = "\<lparr>lat = 3 :: int, lon = 4, maxspeed = Some ''130''\<rparr>"
  obtain m where m: "fst (build_speed_map demo_world [(1, 2), (3, 4)] ?res 110) = Inr m"
    using demo_build_ok [of ?res] by blast
  note t = point_markers_built_not_added [of 110 ?res ?pt demo_world "[(1, 2), (3, 4)]" m]
  from t have loop: "markers_loop 110 ?res [] = map (point_marker 110) ?res" by blast
  from t have "icon_color (point_marker 110 ?pt) =
       (case parse_speed (maxspeed ?pt) of
          None \<Rightarrow> ''gray''
        | Some v \<Rightarrow> if 110 \<le> v then ''red'' else ''blue'')" by blast
  then have col: "icon_color (point_marker 110 ?pt) = ''red''"
    by (simp add: parse_speed_Some speed_eval)
  from t m have "list_all (\<lambda>c. (\<forall>ms. c \<noteq> Cluster_child ms) \<and>
                            (\<forall>r. c \<noteq> Marker_child (point_marker 110 r))) (children m)"
    by blast
  with m loop col show ?thesis by auto
qed

text \<open>
  C5 as stated fails: the map built for a track of two points holds the markers of
  two fuel stations and no marker of a sampled point.
\<close>

theorem point_markers_absent_from_map:
  "fst (build_speed_map demo_world [(1, 2), (3, 4)]
         [\<lparr>lat = 1, lon = 2, maxspeed = None\<rparr>, \<lparr>lat = 3, lon = 4, maxspeed = Some ''90''\<rparr>] 110) =
     Inr \<lparr>map_location = (1, 2), zoom_start = 11,
          children =
            [Marker_child
              \<lparr>location = (2, 3),
               popup = [Str ''Relais<br>'', Glyph 9989, Str '' SP98<br>'', Glyph 9989, Str '' SP95''],
               icon_color = ''green'', icon_name = Some ''tint''\<rparr>,
             Marker_child
              \<lparr>location = (1, 2),
               popup = [Str ''Station-service<br>'', Glyph 10060, Str '' SP98<br>'',
                        Glyph 10060, Str '' SP95''],
               icon_color = ''orange'', icon_name = Some ''tint''\<rparr>,
             Group_child
              \<lparr>group_name = [Str ''Speed '', Glyph 8805, Str '' 110 km/h''],
               shown = True, lines = []\<rparr>,
             Group_child
              \<lparr>group_name = [Str ''Speed < 110 km/h''], shown = True,
               lines = [\<lparr>locations = [(1, 2), (3, 4)], color = ''blue'', weight = 4,
                         line_popup = [Str ''Maxspeed: 90 km/h'']\<rparr>]\<rparr>,
             Group_child
              \<lparr>group_name = [Str ''Unknown speed''], shown = True, lines = []\<rparr>,
             Layer_control False,
             Legend_element 110]\<rparr>"
  by (simp add: build_speed_map_def first_item_def get_bounding_box_def py_min_def py_max_def
      get_fuel_stations_def demo_world_def overpass_service_def demo_db_def selected_fuel_query
      in_box_def stations_loop_eq station_of_def add_fuel_stations_children station_marker_def
      Let_def draw_lines_def draw_line_def seg_speed_def parse_speed_Some
      parse_speed_None speed_eval seg_style_def add_to_def new_layers_def max_default_None_def
      str_int_110 str_int_90 upt_rec)

section \<open>Properties of the segment classification\<close>

lemma str_int_0: "str_int 0 = ''0''"
  by code_simp

text \<open>
  The segment speed on every pair of observations: a resolved speed of 0 counts as
  unknown, and of the speeds that remain the larger is taken.
\<close>

lemma seg_speed_cases:
  "seg_speed r1 r2 =
     (case (parse_speed (maxspeed r1), parse_speed (maxspeed r2)) of
        (None, None) \<Rightarrow> None
      | (None, Some b) \<Rightarrow> (if b = 0 then None else Some b)
      | (Some a, None) \<Rightarrow> (if a = 0 then None else Some a)
      | (Some a, Some b) \<Rightarrow>
          (if a = 0 then (if b = 0 then None else Some b)
           else if b = 0 then Some a
           else Some (max a b)))"
  by (simp add: seg_speed_def Let_def max_default_None_def max.commute split: option.splits)

lemma seg_speed_nonzero:
  "parse_speed (maxspeed r1) = Some a \<Longrightarrow> parse_speed (maxspeed r2) = Some b \<Longrightarrow>
     a \<noteq> 0 \<Longrightarrow> b \<noteq> 0 \<Longrightarrow> seg_speed r1 r2 = Some (max a b)"
  by (simp add: seg_speed_cases)

text \<open>
  Each index of the line loop adds one line to exactly one of the three layers, so
  the layers hold one line per pair of consecutive observations.
\<close>

lemma add_to_count:
  "length (lines (fast (add_to line g ls))) + length (lines (slow (add_to line g ls))) +
     length (lines (unknown (add_to line g ls))) =
   Suc (length (lines (fast ls)) + length (lines (slow ls)) + length (lines (unknown ls)))"
  by (cases g) (simp_all add: add_to_def)

lemma draw_line_count:
  "length (lines (fast (draw_line limit_speed results i ls))) +
     length (lines (slow (draw_line limit_speed results i ls))) +
     length (lines (unknown (draw_line limit_speed results i ls))) =
   Suc (length (lines (fast ls)) + length (lines (slow ls)) + length (lines (unknown ls)))"
  by (simp add: draw_line_def Let_def add_to_count split: prod.splits)

lemma fold_draw_line_count:
  "length (lines (fast (fold (draw_line limit_speed results) is ls))) +
     length (lines (slow (fold (draw_line limit_speed results) is ls))) +
     length (lines (unknown (fold (draw_line limit_speed results) is ls))) =
   length is + (length (lines (fast ls)) + length (lines (slow ls)) + length (lines (unknown ls)))"
  by (induction "is" arbitrary: ls) (simp_all add: draw_line_count)

lemma draw_lines_count:
  "length (lines (fast (draw_lines limit_speed results (new_layers limit_speed)))) +
     length (lines (slow (draw_lines limit_speed results (new_layers limit_speed)))) +
     length (lines (unknown (draw_lines limit_speed results (new_layers limit_speed)))) =
   length results - 1"
  by (simp add: draw_lines_def fold_draw_line_count new_layers_def)

text \<open>
  C1, at the input where the code departs from it. The claim asks that a segment with
  one known endpoint takes that endpoint's speed, also when it is 0. For the
  observations with raw speeds \<open>0\<close> and \<^verbatim>\<open>None\<close> and the threshold 110 the resolver
  gives the known speed 0 for the first, yet the segment speed is unknown:
  \<^verbatim>\<open>filter(None, [s1, s2])\<close> drops the 0 with the \<^verbatim>\<open>None\<close>. The segment is drawn gray
  in the layer of unknown speeds, not blue in the layer below the threshold. With
  the raw speeds \<open>0\<close> and \<open>-30\<close> the segment speed is -30, not their maximum 0.
\<close>

theorem segment_of_zero_speed_is_unknown:
  "parse_speed (Some ''0'') = Some 0
   \<and> seg_speed \<lparr>lat = 1 :: int, lon = 2, maxspeed = Some ''0''\<rparr>
               \<lparr>lat = 3, lon = 4, maxspeed = None\<rparr> = None
   \<and> draw_lines 110
        [\<lparr>lat = 1 :: int, lon = 2, maxspeed = Some ''0''\<rparr>, \<lparr>lat = 3, lon = 4, maxspeed = None\<rparr>]
        (new_layers 110) =
      (new_layers 110)
        \<lparr>unknown := (unknown (new_layers 110))
           \<lparr>lines := [\<lparr>locations = [(1, 2), (3, 4)], color = ''gray'', weight = 4,
                       line_popup = [Str ''Maxspeed: Unknown speed'']\<rparr>]\<rparr>\<rparr>
   \<and> seg_speed \<lparr>lat = 1 :: int, lon = 2, maxspeed = Some ''0''\<rparr>
               \<lparr>lat = 3, lon = 4, maxspeed = Some ''-30''\<rparr> = Some (- 30)"
  by (simp add: seg_speed_cases parse_speed_Some parse_speed_None speed_eval draw_lines_def
      draw_line_def seg_style_def add_to_def new_layers_def Let_def)

text \<open>
  C10, at the input where the code departs from it. The resolver returns 0 and -30 as
  known speeds, the marker of a point takes the speed 0 into the comparison with the
  threshold (blue, \<open>0 km/h\<close>), and the segment classification takes -30 like any
  other value. The speed 0 does not reach the segment classification: the segment of
  the raw speeds \<open>0\<close> and \<^verbatim>\<open>None\<close> is classified as unknown.
\<close>

theorem zero_speed_known_to_marker_only:
  "parse_speed (Some ''0'') = Some 0
   \<and> parse_speed (Some ''-30'') = Some (- 30)
   \<and> point_marker 110 \<lparr>lat = 1 :: int, lon = 2, maxspeed = Some ''0''\<rparr> =
       \<lparr>location = (1, 2), popup = [Str ''Maxspeed: 0 km/h''],
        icon_color = ''blue'', icon_name = None\<rparr>
   \<and> seg_style 110 (seg_speed \<lparr>lat = 1 :: int, lon = 2, maxspeed = Some ''-30''\<rparr>
                               \<lparr>lat = 3, lon = 4, maxspeed = None\<rparr>) =
       (''blue'', ''-30 km/h'', slow_group)
   \<and> seg_style 110 (seg_speed \<lparr>lat = 1 :: int, lon = 2, maxspeed = Some ''0''\<rparr>
                               \<lparr>lat = 3, lon = 4, maxspeed = None\<rparr>) =
       (''gray'', ''Unknown speed'', unknown_group)"
proof -
  have m30: "str_int (- 30) = ''-30''" by code_simp
  show ?thesis
    by (simp add: seg_speed_cases parse_speed_Some parse_speed_None speed_eval point_marker_def
        seg_style_def Let_def str_int_0 m30)
qed

end
